theory Spec2Isabelle
  imports Complex_Main
begin

section \<open>Conventions\<close>

text \<open>
  The source type \<open>Real\<close> (a C++ double) is modelled by the HOL type \<open>real\<close>: the
  arithmetic of the program is read as exact arithmetic. The one place where the code
  distinguishes a not-a-number value (the end-of-step check of the problem generator)
  stores the primitive variables as values of the type \<open>fp\<close> below, and the one
  quotient whose divisor is an input and whose value selects a branch (the photon
  energy of a spectral sample) is computed in the type \<open>xreal\<close>.

  A C array addressed through a pointer is a function of the index. An \<open>AthenaArray\<close>
  read as \<open>a(n,k,j,i)\<close> is a function of the tuple \<open>(n,k,j,i)\<close>, and an assignment
  \<open>a(n,k,j,i) = v\<close> is the function update \<open>a((n,k,j,i) := v)\<close>. A counted loop
  \<open>for (int i = lo; i <= hi; ++i)\<close> is a fold over the list \<open>[lo..hi]\<close>.
  A fatal error (\<open>ATHENA_ERROR\<close>, which throws) is the \<open>Inl\<close> branch of a sum.
\<close>

datatype error =
    UnsupportedCoordinateSystem
  | NotAscending
  | EnergyTooHigh
  | UndefinedRead
  | NonFiniteArgument
  | WrongNumberOfScalars
  | NanDetected string int int int real int

text \<open>A loop whose body may abort: the first error ends the loop.\<close>

fun for_each :: "'a list \<Rightarrow> ('a \<Rightarrow> 's \<Rightarrow> error + 's) \<Rightarrow> 's \<Rightarrow> error + 's" where
  "for_each [] body s = Inr s"
| "for_each (c # cs) body s =
     (case body c s of Inl e \<Rightarrow> Inl e | Inr s' \<Rightarrow> for_each cs body s')"

datatype fp = NaN | Num real

fun isnan :: "fp \<Rightarrow> bool" where
  "isnan NaN = True"
| "isnan (Num v) = False"

text \<open>
  The indices of the conserved and of the primitive variables come from \<open>athena.hpp\<close>,
  which is not among the sources; the values are those of Athena++. The species
  enumeration is the one of \<open>src/pgen/tripathi.cpp\<close>.
\<close>

definition IDN :: nat where "IDN = 0"
definition IM1 :: nat where "IM1 = 1"
definition IM2 :: nat where "IM2 = 2"
definition IM3 :: nat where "IM3 = 3"
definition IEN :: nat where "IEN = 4"
definition IV1 :: nat where "IV1 = 1"
definition IV2 :: nat where "IV2 = 2"
definition IV3 :: nat where "IV3 = 3"
definition IPR :: nat where "IPR = 4"

definition ELEC :: nat where "ELEC = 0"
definition HYD :: nat where "HYD = 1"
definition HPLUS :: nat where "HPLUS = 2"

text \<open>
  The compile-time macros the code reads, the coordinates of a block (cell centres and
  cell volumes; \<open>CellVolume(k,j,is,ie,vol)\<close> fills \<open>vol(i)\<close> with the volume of cell
  \<open>(k,j,i)\<close>) and the part of a \<open>MeshBlock\<close> that the functions below use. The index
  bounds \<open>is, ie, js, je, ks, ke\<close> carry the prefix \<open>mb_\<close>; \<open>mesh_time\<close> and
  \<open>mesh_ncycle\<close> are \<open>pmy_mesh->time\<close> and \<open>pmy_mesh->ncycle\<close>.
\<close>

record Macros =
  COORDINATE_SYSTEM :: string
  NGHOST :: int
  NSCALARS :: nat

record Coordinates =
  x1v :: "int \<Rightarrow> real"
  x2v :: "int \<Rightarrow> real"
  x3v :: "int \<Rightarrow> real"
  CellVolume :: "int \<Rightarrow> int \<Rightarrow> int \<Rightarrow> real"

record MeshBlock =
  mb_is :: int
  mb_ie :: int
  mb_js :: int
  mb_je :: int
  mb_ks :: int
  mb_ke :: int
  nx2 :: int
  nx3 :: int
  pcoord :: Coordinates
  mesh_time :: real
  mesh_ncycle :: int


section \<open>Ionizing absorber: energy partition\<close>

text \<open>
  \<open>src/radiation/absorber/ionizing_absorber.cpp\<close>. Of the \<open>Spectrum\<close> structure only the
  field \<open>wave\<close> is read. The absorber object carries the threshold wavelength
  \<open>lambda_0\<close>, the arrays \<open>h\<close> and \<open>q\<close>, the array \<open>crossSection\<close> of its base class,
  and \<open>wavelength_coefficient\<close>, which stands for \<open>pmy_band->wavelength_coefficient\<close>.
\<close>

record Spectrum =
  wave :: real

record IonizingAbsorber =
  lambda_0 :: real
  wavelength_coefficient :: real
  h :: "nat \<Rightarrow> real"
  q :: "nat \<Rightarrow> real"
  crossSection :: "nat \<Rightarrow> real"

definition energy_functions_step :: "(nat \<Rightarrow> Spectrum) \<Rightarrow> nat \<Rightarrow> IonizingAbsorber \<Rightarrow> IonizingAbsorber" where
  "energy_functions_step spec n a =
     (let wv = wave (spec n) * wavelength_coefficient a in
      if wv > lambda_0 a then
        (let a1 = a\<lparr>h := (h a)(n := 0)\<rparr> in a1\<lparr>q := (q a1)(n := 0)\<rparr>)
      else
        (let a1 = a\<lparr>h := (h a)(n := wv / lambda_0 a)\<rparr> in a1\<lparr>q := (q a1)(n := 1 - h a1 n)\<rparr>))"

definition CalculateEnergyFunctions :: "IonizingAbsorber \<Rightarrow> (nat \<Rightarrow> Spectrum) \<Rightarrow> nat \<Rightarrow> IonizingAbsorber" where
  "CalculateEnergyFunctions a spec nspec = fold (energy_functions_step spec) [0..<nspec] a"


section \<open>Helium ionization: the cross-section table\<close>

text \<open>
  \<open>src/radiation/absorber/helium_ionization.cpp\<close>, \<open>CalculateCrossSections\<close>.
  \<open>ReadDataTable\<close> is outside the sources at hand; its result \<open>file_data\<close> is the list
  of the rows \<open>(x, y)\<close> of the file. The first loop copies row \<open>i\<close> into \<open>file_spec[i]\<close>
  and raises the fatal error when \<open>i > 0\<close> and \<open>file_spec[i].x < file_spec[i-1].x\<close>.
  The accumulator holds \<open>file_spec[0..i-1]\<close>, so \<open>i > 0\<close> is \<open>acc \<noteq> []\<close> and
  \<open>file_spec[i-1]\<close> is \<open>last acc\<close>. The fields \<open>x, y, z\<close> of a \<open>float_triplet\<close> are
  \<open>ft_x, ft_y, ft_z\<close>; the loop does not write the third one (\<open>spline\<close> does, later),
  which is 0 here.
\<close>

record float_triplet =
  ft_x :: real
  ft_y :: real
  ft_z :: real

fun load_file_spec :: "(real \<times> real) list \<Rightarrow> float_triplet list \<Rightarrow> error + float_triplet list" where
  "load_file_spec [] acc = Inr acc"
| "load_file_spec (row # rows) acc =
     (let t = \<lparr>ft_x = fst row, ft_y = snd row, ft_z = 0\<rparr> in
      if acc \<noteq> [] \<and> ft_x t < ft_x (last acc) then Inl NotAscending
      else load_file_spec rows (acc @ [t]))"

text \<open>
  The physical constants are globals defined elsewhere, and the routines \<open>spline\<close>,
  \<open>find_place_in_table\<close> and \<open>splint\<close> of \<open>math/interpolation.h\<close> are not among the
  sources: both are parameters. \<open>find_place_in_table(n, table, x, &dx, il)\<close> returns
  the place and writes \<open>dx\<close>; here it returns the pair. \<open>splint\<close> receives the pointer
  \<open>file_spec+ii\<close>, the table from place \<open>ii\<close> on. Reading \<open>file_spec[0]\<close> of an empty
  table, or forming \<open>file_spec+ii\<close> outside the table, is undefined in C++; the model
  makes it the outcome \<open>UndefinedRead\<close>.
\<close>

record Constants =
  speed_of_light :: real
  planck_constant :: real
  eV_conversion :: real
  ry_conversion :: real
  mb_conversion :: real

record Interpolation =
  spline :: "nat \<Rightarrow> float_triplet list \<Rightarrow> real \<Rightarrow> real \<Rightarrow> float_triplet list"
  find_place_in_table :: "nat \<Rightarrow> float_triplet list \<Rightarrow> real \<Rightarrow> int \<Rightarrow> int \<times> real"
  splint :: "real \<Rightarrow> float_triplet list \<Rightarrow> real \<Rightarrow> real"

text \<open>
  The photon energy of a sample is a quotient whose divisor, the wavelength, comes
  from the input, and the code compares the quotient with the table's bounds. The
  divisions and the product of that computation are therefore written out as the
  floating-point operations are when a divisor is zero: a value is a real number, plus
  or minus infinity, or undefined (not-a-number). A zero divisor is read as positive
  zero.
\<close>

datatype xreal = Fin real | PInf | MInf | Undef

definition fdiv :: "real \<Rightarrow> real \<Rightarrow> xreal" where
  "fdiv a b =
     (if b \<noteq> 0 then Fin (a / b) else if 0 < a then PInf else if a < 0 then MInf else Undef)"

definition xmul :: "real \<Rightarrow> xreal \<Rightarrow> xreal" where
  "xmul p v =
     (case v of
        Fin r \<Rightarrow> Fin (p * r)
      | PInf \<Rightarrow> (if 0 < p then PInf else if p < 0 then MInf else Undef)
      | MInf \<Rightarrow> (if 0 < p then MInf else if p < 0 then PInf else Undef)
      | Undef \<Rightarrow> Undef)"

definition xdiv :: "xreal \<Rightarrow> real \<Rightarrow> xreal" where
  "xdiv v d =
     (case v of
        Fin r \<Rightarrow> fdiv r d
      | PInf \<Rightarrow> (if d < 0 then MInf else PInf)
      | MInf \<Rightarrow> (if d < 0 then PInf else MInf)
      | Undef \<Rightarrow> Undef)"

text \<open>The comparisons \<open>v < r\<close> and \<open>v > r\<close> of such a value with a real number.\<close>

definition xless :: "xreal \<Rightarrow> real \<Rightarrow> bool" where
  "xless v r = (case v of Fin u \<Rightarrow> u < r | PInf \<Rightarrow> False | MInf \<Rightarrow> True | Undef \<Rightarrow> False)"

definition xgreater :: "xreal \<Rightarrow> real \<Rightarrow> bool" where
  "xgreater v r = (case v of Fin u \<Rightarrow> u > r | PInf \<Rightarrow> True | MInf \<Rightarrow> False | Undef \<Rightarrow> False)"

definition sample_energy :: "Constants \<Rightarrow> IonizingAbsorber \<Rightarrow> (nat \<Rightarrow> Spectrum) \<Rightarrow> nat \<Rightarrow> xreal" where
  "sample_energy c a spec n =
     (let wv = wave (spec n);
          freq = fdiv (speed_of_light c) (wv * wavelength_coefficient a)
      in xdiv (xmul (planck_constant c) freq) (eV_conversion c))"

text \<open>
  The body of the loop over the samples. The tests compare \<open>energy\<close>; the table is
  searched and evaluated at \<open>ry\<close>. The routines of \<open>math/interpolation.h\<close> are
  parameters over the real numbers: a call with an argument that is not a real number is
  the outcome \<open>NonFiniteArgument\<close>.
\<close>

definition cross_section_step ::
  "Constants \<Rightarrow> Interpolation \<Rightarrow> float_triplet list \<Rightarrow> (nat \<Rightarrow> Spectrum) \<Rightarrow> nat \<Rightarrow>
   IonizingAbsorber \<times> int \<Rightarrow> error + IonizingAbsorber \<times> int" where
  "cross_section_step c ip file_spec spec n st =
     (let a = fst st; ii = snd st;
          n_file = length file_spec;
          energy = sample_energy c a spec n;
          ry = xdiv energy (ry_conversion c)
      in
      if file_spec = [] then Inl UndefinedRead
      else if xless energy (ft_x (file_spec ! 0)) then
        Inr (a\<lparr>crossSection := (crossSection a)(n := 0)\<rparr>, ii)
      else if xgreater energy (ft_x (file_spec ! (n_file - 1))) then Inl EnergyTooHigh
      else
        (case ry of
           Fin ry_value \<Rightarrow>
             (let found = find_place_in_table ip n_file file_spec ry_value ii;
                  ii' = fst found; dx = snd found
              in
              if ii' < 0 \<or> int n_file \<le> ii' then Inl UndefinedRead
              else
                (let xc_mb = splint ip ry_value (drop (nat ii') file_spec) dx
                 in Inr (a\<lparr>crossSection := (crossSection a)(n := xc_mb * mb_conversion c)\<rparr>, ii')))
         | PInf \<Rightarrow> Inl NonFiniteArgument
         | MInf \<Rightarrow> Inl NonFiniteArgument
         | Undef \<Rightarrow> Inl NonFiniteArgument))"

definition CalculateCrossSections ::
  "Constants \<Rightarrow> Interpolation \<Rightarrow> (real \<times> real) list \<Rightarrow> IonizingAbsorber \<Rightarrow>
   (nat \<Rightarrow> Spectrum) \<Rightarrow> nat \<Rightarrow> error + IonizingAbsorber" where
  "CalculateCrossSections c ip file_data a spec nspec =
     (case load_file_spec file_data [] of
        Inl e \<Rightarrow> Inl e
      | Inr file_spec0 \<Rightarrow>
          (let file_spec = spline ip (length file_spec0) file_spec0 0 0 in
           case for_each [0..<nspec] (cross_section_step c ip file_spec spec) (a, - 1) of
             Inl e \<Rightarrow> Inl e
           | Inr st \<Rightarrow> Inr (fst st)))"


section \<open>The hand-coded problem generator (\<open>drum/pgen/tripathi.cpp\<close>)\<close>

definition mh :: real where "mh = 1.674 / 10 ^ 27"
definition Ry :: real where "Ry = 2.1798723611 / 10 ^ 18"

text \<open>
  \<open>pow\<close> of the C library, for a positive base (for other bases the C function has
  special cases that \<open>powr\<close> does not follow; no statement below rests on them).
\<close>

definition pow :: "real \<Rightarrow> real \<Rightarrow> real" where
  "pow b e = b powr e"


text \<open>
  \<open>SourceTerms\<close> reads the primitive variables \<open>w\<close>, the scalars \<open>ps->s\<close> and \<open>ps->r\<close>,
  the gas constant \<open>pthermo->GetRd()\<close> and \<open>prad->du\<close>, and writes \<open>du\<close>, \<open>ds\<close> and the
  global output arrays. The branch \<open>if (n_ion_gain > n_neu)\<close> of the source fills a
  string stream and leaves it: nothing is thrown and no variable changes, so the
  branch has no counterpart in the model.
\<close>

record SourceInputs =
  pmb :: MeshBlock
  Rd :: real
  prad_du :: "int \<times> int \<times> int \<Rightarrow> real"
  ps_s :: "nat \<times> int \<times> int \<times> int \<Rightarrow> real"
  ps_r :: "nat \<times> int \<times> int \<times> int \<Rightarrow> real"
  w :: "nat \<times> int \<times> int \<times> int \<Rightarrow> real"

record SourceState =
  du :: "nat \<times> int \<times> int \<times> int \<Rightarrow> real"
  ds :: "nat \<times> int \<times> int \<times> int \<Rightarrow> real"
  rad_flux_ion :: "int \<times> int \<times> int \<Rightarrow> real"
  rad_eng :: "int \<times> int \<times> int \<Rightarrow> real"
  ionization_rate :: "int \<times> int \<times> int \<Rightarrow> real"
  recombination_rate :: "int \<times> int \<times> int \<Rightarrow> real"
  recombinative_cooling :: "int \<times> int \<times> int \<Rightarrow> real"
  lya_cooling :: "int \<times> int \<times> int \<Rightarrow> real"
  output_du :: "int \<times> int \<times> int \<Rightarrow> real"

definition n_ion_gain :: "SourceInputs \<Rightarrow> real \<Rightarrow> (int \<times> int \<times> int \<Rightarrow> real) \<Rightarrow> int \<Rightarrow> int \<Rightarrow> int \<Rightarrow> real" where
  "n_ion_gain inp dt rfi k j i =
     (let energy_ion = - dt * rfi (k,j,i)
      in energy_ion / Ry / CellVolume (pcoord (pmb inp)) k j i)"

definition temperature :: "SourceInputs \<Rightarrow> int \<Rightarrow> int \<Rightarrow> int \<Rightarrow> real" where
  "temperature inp k j i =
     (let R = Rd inp;
          T = w inp (IPR,k,j,i) / (R * w inp (IDN,k,j,i));
          ion_f = ps_r inp (1,k,j,i)
      in T * (1 - ion_f / 2))"

definition n_recomb :: "SourceInputs \<Rightarrow> real \<Rightarrow> int \<Rightarrow> int \<Rightarrow> int \<Rightarrow> real" where
  "n_recomb inp dt k j i =
     (let n_ion = ps_s inp (1,k,j,i) / mh;
          T = temperature inp k j i;
          alpha_B = 2.59 / 10 ^ 19 * pow (T / 10 ^ 4) (- 0.7)
      in dt * alpha_B * (n_ion * n_ion))"

definition source_cell :: "SourceInputs \<Rightarrow> real \<Rightarrow> int \<Rightarrow> int \<Rightarrow> int \<Rightarrow> SourceState \<Rightarrow> SourceState" where
  "source_cell inp dt k j i st =
     (let st1 = st\<lparr>rad_eng := (rad_eng st)((k,j,i) := prad_du inp (k,j,i))\<rparr>;
          n_ion = ps_s inp (1,k,j,i) / mh;
          n_neu = ps_s inp (0,k,j,i) / mh;
          gain = n_ion_gain inp dt (rad_flux_ion st1) k j i;
          T = temperature inp k j i;
          recomb = n_recomb inp dt k j i;
          kb = 1.3806504 / 10 ^ 23;
          recomb_cooling_const = 6.11 / 10 ^ 16 * pow T (- 0.89);
          recomb_cooling_rate = recomb_cooling_const * (kb * T) * (n_ion * n_ion);
          lya_cooling_const = 7.5 / 10 ^ 32 * exp (- 118348 / T);
          lya_cooling_rate = lya_cooling_const * n_ion * n_neu;
          st2 = st1\<lparr>du := (du st1)((IEN,k,j,i) :=
                  du st1 (IEN,k,j,i) - (recomb_cooling_rate + lya_cooling_rate) * dt)\<rparr>;
          st3 = st2\<lparr>ds := (ds st2)((0,k,j,i) := ds st2 (0,k,j,i) + (recomb - gain) * mh)\<rparr>;
          st4 = st3\<lparr>ds := (ds st3)((1,k,j,i) := ds st3 (1,k,j,i) + (- recomb + gain) * mh)\<rparr>;
          st5 = st4\<lparr>ionization_rate := (ionization_rate st4)((k,j,i) := gain / dt)\<rparr>;
          st6 = st5\<lparr>recombination_rate := (recombination_rate st5)((k,j,i) := recomb / dt)\<rparr>;
          st7 = st6\<lparr>lya_cooling := (lya_cooling st6)((k,j,i) := lya_cooling_rate)\<rparr>;
          st8 = st7\<lparr>recombinative_cooling := (recombinative_cooling st7)((k,j,i) := recomb_cooling_rate)\<rparr>
      in st8\<lparr>output_du := (output_du st8)((k,j,i) := du st8 (IEN,k,j,i))\<rparr>)"

definition source_loop :: "SourceInputs \<Rightarrow> real \<Rightarrow> SourceState \<Rightarrow> SourceState" where
  "source_loop inp dt st =
     fold (\<lambda>k. fold (\<lambda>j. fold (\<lambda>i. source_cell inp dt k j i)
                              [mb_is (pmb inp)..mb_ie (pmb inp)])
                    [mb_js (pmb inp)..mb_je (pmb inp)])
          [mb_ks (pmb inp)..mb_ke (pmb inp)] st"

definition SourceTerms :: "SourceInputs \<Rightarrow> real \<Rightarrow> SourceState \<Rightarrow> SourceState" where
  "SourceTerms inp dt st = (source_loop inp dt st)\<lparr>rad_flux_ion := (\<lambda>c. 0)\<rparr>"


section \<open>The problem generator with a reaction network (\<open>src/pgen/tripathi.cpp\<close>)\<close>

text \<open>The file-scope variables that the functions below read.\<close>

record Globals =
  G :: real
  Mp :: real
  Rp :: real
  sfloor :: real
  gas_gamma :: real
  rho_p :: real
  cs :: real
  space_density_factor :: real
  r_0 :: real
  r_e :: real
  rho_0 :: real
  rho_e :: real
  P_0 :: real
  P_e :: real
  r_replenish :: real

definition rho_func :: "Globals \<Rightarrow> real \<Rightarrow> real" where
  "rho_func g r =
     (let gm1 = gas_gamma g - 1;
          K = pow (rho_p g) (1 - gas_gamma g) * pow (cs g) 2;
          rho_term_1 = gm1 / gas_gamma g * G g * Mp g / K;
          rho_term_2 = 1 / r - 1 / Rp g;
          rho_term_3 = pow (rho_p g) gm1
      in pow (rho_term_1 * rho_term_2 + rho_term_3) (1 / gm1))"

definition press_func :: "Globals \<Rightarrow> real \<Rightarrow> real" where
  "press_func g rho =
     (let K = pow (rho_p g) (1 - gas_gamma g) * pow (cs g) 2
      in K * pow rho (gas_gamma g))"

definition getRad :: "Macros \<Rightarrow> Coordinates \<Rightarrow> int \<Rightarrow> int \<Rightarrow> int \<Rightarrow> error + real" where
  "getRad mc pc i j k =
     (if COORDINATE_SYSTEM mc = ''cartesian'' then
        (let xx = x1v pc i; yy = x2v pc j; zz = x3v pc k
         in Inr (sqrt (xx * xx + yy * yy + zz * zz)))
      else if COORDINATE_SYSTEM mc = ''spherical_polar'' then Inr (x1v pc i)
      else Inl UnsupportedCoordinateSystem)"

text \<open>\<open>getMBBounds\<close> returns \<open>(il, iu, jl, ju, kl, ku)\<close>.\<close>

definition getMBBounds :: "Macros \<Rightarrow> MeshBlock \<Rightarrow> int \<times> int \<times> int \<times> int \<times> int \<times> int" where
  "getMBBounds mc b =
     (mb_is b - NGHOST mc,
      mb_ie b + NGHOST mc,
      (if nx2 b = 1 then mb_js b else mb_js b - NGHOST mc),
      (if nx2 b = 1 then mb_je b else mb_je b + NGHOST mc),
      (if nx3 b = 1 then mb_ks b else mb_ks b - NGHOST mc),
      (if nx3 b = 1 then mb_ke b else mb_ke b + NGHOST mc))"

text \<open>\<open>SetInitialConditions\<close> returns \<open>(dens, press, v1, v2, v3)\<close>.\<close>

definition SetInitialConditions :: "Globals \<Rightarrow> real \<Rightarrow> real \<times> real \<times> real \<times> real \<times> real" where
  "SetInitialConditions g rad =
     (if rad \<le> r_0 g then (rho_0 g, P_0 g, 0, 0, 0)
      else if rad \<le> r_e g then
        (let dens = rho_func g rad in (dens, press_func g dens, 0, 0, 0))
      else (rho_e g * space_density_factor g, P_e g, 0, 0, 0))"

text \<open>
  \<open>SetInitialAbundances\<close>: the body of the loop for one cell, with \<open>m\<close> the array
  \<open>ps->m\<close> of the species' masses and \<open>ia\<close> the global array \<open>initial_abundances\<close>.
  \<open>scale_by_mass\<close> is the body of the inner loop over the species,
  \<open>initial_abundances(n,k,j,i) *= ps->m(n)\<close>.
\<close>

definition scale_by_mass ::
  "(nat \<Rightarrow> real) \<Rightarrow> int \<Rightarrow> int \<Rightarrow> int \<Rightarrow> nat \<Rightarrow>
   (nat \<times> int \<times> int \<times> int \<Rightarrow> real) \<Rightarrow> (nat \<times> int \<times> int \<times> int \<Rightarrow> real)" where
  "scale_by_mass m k j i n ia = ia((n,k,j,i) := ia (n,k,j,i) * m n)"

definition abundance_cell ::
  "Macros \<Rightarrow> Globals \<Rightarrow> MeshBlock \<Rightarrow> (nat \<Rightarrow> real) \<Rightarrow> int \<Rightarrow> int \<Rightarrow> int \<Rightarrow>
   (nat \<times> int \<times> int \<times> int \<Rightarrow> real) \<Rightarrow> error + (nat \<times> int \<times> int \<times> int \<Rightarrow> real)" where
  "abundance_cell mc g b m k j i ia =
     (case getRad mc (pcoord b) i j k of
        Inl e \<Rightarrow> Inl e
      | Inr rad \<Rightarrow>
          (let minval = sfloor g / m ELEC;
               ia3 =
                 (if rad \<le> r_e g then
                    (let ia1 = ia((HYD,k,j,i) := 1 / m HYD - minval);
                         ia2 = ia1((ELEC,k,j,i) := minval)
                     in ia2((HPLUS,k,j,i) := minval))
                  else
                    (let ia1 = ia((HYD,k,j,i) := minval);
                         ia2 = ia1((ELEC,k,j,i) := 1 / m HYD - minval)
                     in ia2((HPLUS,k,j,i) := 1 / m HYD - minval)))
           in Inr (fold (scale_by_mass m k j i) [0..<NSCALARS mc] ia3)))"

definition SetInitialAbundances ::
  "Macros \<Rightarrow> Globals \<Rightarrow> MeshBlock \<Rightarrow> (nat \<Rightarrow> real) \<Rightarrow>
   (nat \<times> int \<times> int \<times> int \<Rightarrow> real) \<Rightarrow> error + (nat \<times> int \<times> int \<times> int \<Rightarrow> real)" where
  "SetInitialAbundances mc g b m ia =
     (case getMBBounds mc b of (il, iu, jl, ju, kl, ku) \<Rightarrow>
        for_each [kl..ku] (\<lambda>k. for_each [jl..ju] (\<lambda>j. for_each [il..iu]
          (\<lambda>i. abundance_cell mc g b m k j i))) ia)"

text \<open>
  The state of a block: the primitive variables \<open>phydro->w\<close> (which the end-of-step
  check tests for not-a-number), the conserved variables \<open>phydro->u\<close>, the scalars
  \<open>pscalars->s\<close> and \<open>pscalars->r\<close>, and the global \<open>initial_abundances\<close>.
\<close>

record BlockState =
  phydro_w :: "nat \<times> int \<times> int \<times> int \<Rightarrow> fp"
  phydro_u :: "nat \<times> int \<times> int \<times> int \<Rightarrow> real"
  pscalars_s :: "nat \<times> int \<times> int \<times> int \<Rightarrow> real"
  pscalars_r :: "nat \<times> int \<times> int \<times> int \<Rightarrow> real"
  initial_abundances :: "nat \<times> int \<times> int \<times> int \<Rightarrow> real"

definition write_prim :: "real \<times> real \<times> real \<times> real \<times> real \<Rightarrow> int \<Rightarrow> int \<Rightarrow> int \<Rightarrow> BlockState \<Rightarrow> BlockState" where
  "write_prim ic k j i st =
     (case ic of (dens, press, v1, v2, v3) \<Rightarrow>
        (let st1 = st\<lparr>phydro_w := (phydro_w st)((IPR,k,j,i) := Num press)\<rparr>;
             st2 = st1\<lparr>phydro_w := (phydro_w st1)((IDN,k,j,i) := Num dens)\<rparr>;
             st3 = st2\<lparr>phydro_w := (phydro_w st2)((IV1,k,j,i) := Num v1)\<rparr>;
             st4 = st3\<lparr>phydro_w := (phydro_w st3)((IV2,k,j,i) := Num v2)\<rparr>
         in st4\<lparr>phydro_w := (phydro_w st4)((IV3,k,j,i) := Num v3)\<rparr>))"

text \<open>
  The bodies of the two loops over the species: \<open>set_scalar\<close> in
  \<open>ProblemGenerator\<close> and \<open>reset_scalar\<close> in \<open>UserWorkInLoop\<close>.
\<close>

definition set_scalar :: "real \<Rightarrow> int \<Rightarrow> int \<Rightarrow> int \<Rightarrow> nat \<Rightarrow> BlockState \<Rightarrow> BlockState" where
  "set_scalar dens k j i n s =
     s\<lparr>pscalars_s := (pscalars_s s)((n,k,j,i) := initial_abundances s (n,k,j,i) * dens)\<rparr>"

definition reset_scalar :: "real \<Rightarrow> int \<Rightarrow> int \<Rightarrow> int \<Rightarrow> nat \<Rightarrow> BlockState \<Rightarrow> BlockState" where
  "reset_scalar dens k j i n s =
     (let s1 = s\<lparr>pscalars_r := (pscalars_r s)((n,k,j,i) := initial_abundances s (n,k,j,i))\<rparr>
      in s1\<lparr>pscalars_s := (pscalars_s s1)((n,k,j,i) := initial_abundances s1 (n,k,j,i) * dens)\<rparr>)"

text \<open>
  \<open>MeshBlock::ProblemGenerator\<close>, up to the end of its loop over the cells. The calls
  that follow the loop (\<open>CalculateRadiativeTransfer\<close>, \<open>PrimitiveToConserved\<close>,
  \<open>pnetwork->Initialize\<close>) belong to files that are not among the sources and are not
  part of the model. \<open>NewAthenaArray\<close> gives an array of zeros.
\<close>

definition init_cell :: "Macros \<Rightarrow> Globals \<Rightarrow> MeshBlock \<Rightarrow> int \<Rightarrow> int \<Rightarrow> int \<Rightarrow> BlockState \<Rightarrow> error + BlockState" where
  "init_cell mc g b i j k st =
     (case getRad mc (pcoord b) i j k of
        Inl e \<Rightarrow> Inl e
      | Inr rad \<Rightarrow>
          (let ic = SetInitialConditions g rad;
               dens = fst ic;
               st1 = write_prim ic k j i st
           in Inr (fold (set_scalar dens k j i) [0..<NSCALARS mc] st1)))"

definition ProblemGenerator :: "Macros \<Rightarrow> Globals \<Rightarrow> MeshBlock \<Rightarrow> (nat \<Rightarrow> real) \<Rightarrow> BlockState \<Rightarrow> error + BlockState" where
  "ProblemGenerator mc g b m st =
     (if NSCALARS mc \<noteq> 3 then Inl WrongNumberOfScalars
      else
        (case SetInitialAbundances mc g b m (\<lambda>c. 0) of
           Inl e \<Rightarrow> Inl e
         | Inr ia \<Rightarrow>
             (case getMBBounds mc b of (il, iu, jl, ju, kl, ku) \<Rightarrow>
                for_each [il..iu] (\<lambda>i. for_each [jl..ju] (\<lambda>j. for_each [kl..ku]
                  (\<lambda>k. init_cell mc g b i j k))) (st\<lparr>initial_abundances := ia\<rparr>))))"

text \<open>
  \<open>MeshBlock::UserWorkInLoop\<close>. The flag \<open>nancheck\<close> is set in the same iteration in
  which the error is thrown, so the test \<open>if (nancheck)\<close> is the test that one of the
  five branches was taken; \<open>nan_quantity\<close> gives the name that the taken branch
  appends to the message. The message itself is the value \<open>NanDetected\<close> with the
  quantity's name, \<open>k\<close>, \<open>j\<close>, \<open>i\<close>, the time and the cycle.
\<close>

definition nan_quantity :: "(nat \<times> int \<times> int \<times> int \<Rightarrow> fp) \<Rightarrow> int \<Rightarrow> int \<Rightarrow> int \<Rightarrow> string option" where
  "nan_quantity pw k j i =
     (if isnan (pw (IDN,k,j,i)) then Some ''dens''
      else if isnan (pw (IPR,k,j,i)) then Some ''press''
      else if isnan (pw (IV1,k,j,i)) then Some ''vel1''
      else if isnan (pw (IV2,k,j,i)) then Some ''vel2''
      else if isnan (pw (IV3,k,j,i)) then Some ''vel3''
      else None)"

definition reset_cell :: "Macros \<Rightarrow> Globals \<Rightarrow> real \<Rightarrow> int \<Rightarrow> int \<Rightarrow> int \<Rightarrow> BlockState \<Rightarrow> BlockState" where
  "reset_cell mc g rad k j i st =
     (let gm1 = gas_gamma g - 1;
          ic = SetInitialConditions g rad
      in case ic of (dens, press, v1, v2, v3) \<Rightarrow>
        (let st1 = write_prim ic k j i st;
             st2 = st1\<lparr>phydro_u := (phydro_u st1)((IEN,k,j,i) := press / gm1)\<rparr>;
             st3 = st2\<lparr>phydro_u := (phydro_u st2)((IDN,k,j,i) := dens)\<rparr>;
             st4 = st3\<lparr>phydro_u := (phydro_u st3)((IM1,k,j,i) := v1 * dens)\<rparr>;
             st5 = st4\<lparr>phydro_u := (phydro_u st4)((IM2,k,j,i) := v2 * dens)\<rparr>;
             st6 = st5\<lparr>phydro_u := (phydro_u st5)((IM3,k,j,i) := v3 * dens)\<rparr>
         in fold (reset_scalar dens k j i) [0..<NSCALARS mc] st6))"

definition work_cell :: "Macros \<Rightarrow> Globals \<Rightarrow> MeshBlock \<Rightarrow> int \<Rightarrow> int \<Rightarrow> int \<Rightarrow> BlockState \<Rightarrow> error + BlockState" where
  "work_cell mc g b k j i st =
     (case getRad mc (pcoord b) i j k of
        Inl e \<Rightarrow> Inl e
      | Inr rad \<Rightarrow>
          (case nan_quantity (phydro_w st) k j i of
             Some name \<Rightarrow> Inl (NanDetected name k j i (mesh_time b) (mesh_ncycle b))
           | None \<Rightarrow> Inr (if rad \<le> r_replenish g then reset_cell mc g rad k j i st else st)))"

definition UserWorkInLoop :: "Macros \<Rightarrow> Globals \<Rightarrow> MeshBlock \<Rightarrow> BlockState \<Rightarrow> error + BlockState" where
  "UserWorkInLoop mc g b st =
     (case getMBBounds mc b of (il, iu, jl, ju, kl, ku) \<Rightarrow>
        for_each [kl..ku] (\<lambda>k. for_each [jl..ju] (\<lambda>j. for_each [il..iu]
          (\<lambda>i. work_cell mc g b k j i))) st)"


section \<open>Radiation source term (\<open>src/radiation/radiation.cpp\<close>)\<close>

text \<open>
  \<open>Radiation::AddRadiationSourceTerm\<close>. The linked list that starts at \<open>pband\<close> is the
  list of its bands. \<open>RadiationBand::CalculateEnergyDeposition(dflx,k,j,is,ie)\<close> is not
  among the sources: a band is given by the value \<open>energy_deposition p k j i\<close> that the
  call leaves in \<open>dflx(i)\<close> for the row \<open>(k,j)\<close>, and \<open>vol(i)\<close> is the cell volume.
  \<open>deposit_band\<close> is the body of the \<open>while\<close> loop for one band \<open>p\<close>.
\<close>

record RadiationBand =
  energy_deposition :: "int \<Rightarrow> int \<Rightarrow> int \<Rightarrow> real"

record Radiation =
  pband :: "RadiationBand list"
  pmy_block :: MeshBlock

definition deposit_band ::
  "MeshBlock \<Rightarrow> real \<Rightarrow> RadiationBand \<Rightarrow> (nat \<times> int \<times> int \<times> int \<Rightarrow> real) \<Rightarrow> (nat \<times> int \<times> int \<times> int \<Rightarrow> real)" where
  "deposit_band b dt p du0 =
     fold (\<lambda>k. fold (\<lambda>j. fold (\<lambda>i dv.
              dv((IEN,k,j,i) := dv (IEN,k,j,i)
                  - dt * energy_deposition p k j i / CellVolume (pcoord b) k j i))
            [mb_is b..mb_ie b]) [mb_js b..mb_je b]) [mb_ks b..mb_ke b] du0"

definition AddRadiationSourceTerm ::
  "Radiation \<Rightarrow> real \<Rightarrow> (nat \<times> int \<times> int \<times> int \<Rightarrow> real) \<Rightarrow> (nat \<times> int \<times> int \<times> int \<Rightarrow> real)" where
  "AddRadiationSourceTerm rad dt du0 =
     (let b = pmy_block rad in
      if pband rad = [] then du0
      else fold (deposit_band b dt) (pband rad) du0)"


section \<open>Auxiliary notions and sample inputs\<close>

text \<open>The cells that the loops over \<open>ks..ke\<close>, \<open>js..je\<close> and \<open>is..ie\<close> visit.\<close>

definition interior :: "MeshBlock \<Rightarrow> int \<Rightarrow> int \<Rightarrow> int \<Rightarrow> bool" where
  "interior b k j i \<longleftrightarrow>
     mb_ks b \<le> k \<and> k \<le> mb_ke b \<and> mb_js b \<le> j \<and> j \<le> mb_je b \<and> mb_is b \<le> i \<and> i \<le> mb_ie b"

text \<open>
  The coordinate systems that \<open>getRad\<close> accepts, the radius it then returns, the
  cells of a block that the loops over the bounds of \<open>getMBBounds\<close> visit, and the
  name that the end-of-step check gives to a primitive variable.
\<close>

definition valid_coordinates :: "Macros \<Rightarrow> bool" where
  "valid_coordinates mc \<longleftrightarrow>
     COORDINATE_SYSTEM mc = ''cartesian'' \<or> COORDINATE_SYSTEM mc = ''spherical_polar''"

definition radius :: "Macros \<Rightarrow> Coordinates \<Rightarrow> int \<Rightarrow> int \<Rightarrow> int \<Rightarrow> real" where
  "radius mc pc i j k =
     (if COORDINATE_SYSTEM mc = ''cartesian''
      then sqrt (x1v pc i * x1v pc i + x2v pc j * x2v pc j + x3v pc k * x3v pc k)
      else x1v pc i)"

definition in_block :: "Macros \<Rightarrow> MeshBlock \<Rightarrow> int \<Rightarrow> int \<Rightarrow> int \<Rightarrow> bool" where
  "in_block mc b k j i \<longleftrightarrow>
     (case getMBBounds mc b of (il, iu, jl, ju, kl, ku) \<Rightarrow>
        kl \<le> k \<and> k \<le> ku \<and> jl \<le> j \<and> j \<le> ju \<and> il \<le> i \<and> i \<le> iu)"

definition prim_name :: "nat \<Rightarrow> string" where
  "prim_name n =
     (if n = IDN then ''dens'' else if n = IPR then ''press'' else if n = IV1 then ''vel1''
      else if n = IV2 then ''vel2'' else ''vel3'')"

text \<open>
  The part of the state of a block that belongs to the cell \<open>(k,j,i)\<close>,
  the density and the
  pressure of \<open>SetInitialConditions\<close>, the effect of one iteration of
  \<open>UserWorkInLoop\<close> that passes the check, and the mass fraction that
  \<open>SetInitialAbundances\<close> computes for species \<open>n\<close> at radius \<open>rad\<close>.
\<close>

definition cell_state ::
  "BlockState \<Rightarrow> int \<Rightarrow> int \<Rightarrow> int \<Rightarrow> (nat \<Rightarrow> fp) \<times> (nat \<Rightarrow> real) \<times> (nat \<Rightarrow> real) \<times> (nat \<Rightarrow> real)" where
  "cell_state st k j i =
     (\<lambda>n. phydro_w st (n, k, j, i), \<lambda>n. phydro_u st (n, k, j, i),
      \<lambda>n. pscalars_s st (n, k, j, i), \<lambda>n. pscalars_r st (n, k, j, i))"

definition ic_dens :: "Globals \<Rightarrow> real \<Rightarrow> real" where
  "ic_dens g rad = fst (SetInitialConditions g rad)"

definition ic_press :: "Globals \<Rightarrow> real \<Rightarrow> real" where
  "ic_press g rad = fst (snd (SetInitialConditions g rad))"

definition replenish_cell :: "Macros \<Rightarrow> Globals \<Rightarrow> MeshBlock \<Rightarrow> int \<Rightarrow> int \<Rightarrow> int \<Rightarrow> BlockState \<Rightarrow> BlockState" where
  "replenish_cell mc g b k j i st =
     (if radius mc (pcoord b) i j k \<le> r_replenish g
      then reset_cell mc g (radius mc (pcoord b) i j k) k j i st else st)"

definition mass_fraction :: "Globals \<Rightarrow> (nat \<Rightarrow> real) \<Rightarrow> real \<Rightarrow> nat \<Rightarrow> real" where
  "mass_fraction g m rad n =
     (if rad \<le> r_e g
      then (if n = HYD then (1 / m HYD - sfloor g / m ELEC) * m n else sfloor g / m ELEC * m n)
      else (if n = HYD then sfloor g / m ELEC * m n else (1 / m HYD - sfloor g / m ELEC) * m n))"

text \<open>
  The effect of one iteration of \<open>SetInitialAbundances\<close> and of one iteration of the
  loop of \<open>ProblemGenerator\<close> when \<open>getRad\<close> does not abort and there are three
  species.
\<close>

definition set_abundances ::
  "Macros \<Rightarrow> Globals \<Rightarrow> MeshBlock \<Rightarrow> (nat \<Rightarrow> real) \<Rightarrow> int \<Rightarrow> int \<Rightarrow> int \<Rightarrow>
   (nat \<times> int \<times> int \<times> int \<Rightarrow> real) \<Rightarrow> (nat \<times> int \<times> int \<times> int \<Rightarrow> real)" where
  "set_abundances mc g b m k j i ia =
     (\<lambda>c. if snd c = (k, j, i) \<and> fst c < 3
          then mass_fraction g m (radius mc (pcoord b) i j k) (fst c) else ia c)"

definition init_state :: "Macros \<Rightarrow> Globals \<Rightarrow> MeshBlock \<Rightarrow> int \<Rightarrow> int \<Rightarrow> int \<Rightarrow> BlockState \<Rightarrow> BlockState" where
  "init_state mc g b i j k st =
     fold (set_scalar (ic_dens g (radius mc (pcoord b) i j k)) k j i) [0..<NSCALARS mc]
       (write_prim (SetInitialConditions g (radius mc (pcoord b) i j k)) k j i st)"

text \<open>
  An absorber with threshold wavelength 4 and three spectral samples: one at the
  threshold, one at half the threshold and one above it.
\<close>

definition ex_absorber :: IonizingAbsorber where
  "ex_absorber = \<lparr>lambda_0 = 4, wavelength_coefficient = 1,
                   h = (\<lambda>n. 0), q = (\<lambda>n. 0), crossSection = (\<lambda>n. 0)\<rparr>"

definition ex_spec :: "nat \<Rightarrow> Spectrum" where
  "ex_spec n = \<lparr>wave = (if n = 0 then 4 else if n = 1 then 2 else 5)\<rparr>"

text \<open>
  A block with one interior cell of unit volume, whose cell centres are at
  \<open>x1 = i + 3\<close>, and inputs of \<open>SourceTerms\<close> for it: neutral
  mass density 1, no ions, and an absorbed ionizing flux whose naive ion gain over a
  timestep of 1 is twice the number of neutral particles in the cell (\<open>ex_state\<close>)
  or half of it (\<open>ex_state_half\<close>). The array \<open>ds\<close> starts from the species
  densities.
\<close>

definition ex_block :: MeshBlock where
  "ex_block = \<lparr>mb_is = 0, mb_ie = 0, mb_js = 0, mb_je = 0, mb_ks = 0, mb_ke = 0,
                nx2 = 1, nx3 = 1,
                pcoord = \<lparr>x1v = (\<lambda>i. of_int i + 3), x2v = (\<lambda>j. 0), x3v = (\<lambda>k. 0), CellVolume = (\<lambda>k j i. 1)\<rparr>,
                mesh_time = 7, mesh_ncycle = 3\<rparr>"





text \<open>
  Sample values for the parameters of \<open>CalculateCrossSections\<close>: unit constants and
  interpolation routines that leave the table as it is, find place 0 and return 7.
\<close>

definition ex_constants :: Constants where
  "ex_constants = \<lparr>speed_of_light = 1, planck_constant = 1, eV_conversion = 1,
                    ry_conversion = 1, mb_conversion = 1\<rparr>"

definition ex_interp :: Interpolation where
  "ex_interp = \<lparr>spline = (\<lambda>n t a b. t), find_place_in_table = (\<lambda>n t v il. (0, 0)),
                 splint = (\<lambda>v t dx. 7)\<rparr>"

definition ex_rows :: "(real \<times> real) list" where
  "ex_rows = [(1, 5), (1, 6)]"

definition ex_table :: "float_triplet list" where
  "ex_table = [\<lparr>ft_x = 1, ft_y = 5, ft_z = 0\<rparr>, \<lparr>ft_x = 3, ft_y = 6, ft_z = 0\<rparr>]"

text \<open>A radiation object with two bands on the one-cell block.\<close>

definition ex_radiation :: Radiation where
  "ex_radiation = \<lparr>pband = [\<lparr>energy_deposition = (\<lambda>k j i. 2)\<rparr>, \<lparr>energy_deposition = (\<lambda>k j i. 3)\<rparr>],
                    pmy_block = ex_block\<rparr>"

text \<open>
  Constants in which one Rydberg is two electron volts, interpolation routines that
  find place 0 and return the abscissa at which they are asked to evaluate, and two
  samples for the table \<open>ex_table\<close> (tabulated from 1 to 3): photon energy 1 and
  photon energy 4.
\<close>

definition ex_constants_ry :: Constants where
  "ex_constants_ry = \<lparr>speed_of_light = 1, planck_constant = 1, eV_conversion = 1,
                       ry_conversion = 2, mb_conversion = 1\<rparr>"

definition ex_probe :: Interpolation where
  "ex_probe = \<lparr>spline = (\<lambda>n t a b. t), find_place_in_table = (\<lambda>n t v il. (0, 0)),
                splint = (\<lambda>v t dx. v)\<rparr>"

definition ex_spec_units :: "nat \<Rightarrow> Spectrum" where
  "ex_spec_units n = \<lparr>wave = (if n = 0 then 1 else 1 / 4)\<rparr>"

text \<open>
  A configuration in spherical polar coordinates with two ghost cells on each side of
  the one interior cell: the cells \<open>i = -2, ..., 2\<close> lie at the radii \<open>1, ..., 5\<close>. The
  masses \<open>ex_masses\<close> satisfy \<open>m(HYD) = m(ELEC) + m(HPLUS)\<close>; the masses
  \<open>ex_equal_masses\<close> give the neutral atom and the ion the same mass. In
  \<open>ex_nan_state\<close> the pressure of the cell \<open>(0,0,0)\<close> is not a number.
\<close>

definition ex_macros :: Macros where
  "ex_macros = \<lparr>COORDINATE_SYSTEM = ''spherical_polar'', NGHOST = 2, NSCALARS = 3\<rparr>"

definition ex_globals :: Globals where
  "ex_globals = \<lparr>G = 1, Mp = 1, Rp = 4, sfloor = 1 / 10000, gas_gamma = 5 / 3, rho_p = 1, cs = 1,
                  space_density_factor = 1 / 2, r_0 = 2, r_e = 4, rho_0 = 5, rho_e = 2,
                  P_0 = 7, P_e = 3, r_replenish = 3\<rparr>"

definition ex_masses :: "nat \<Rightarrow> real" where
  "ex_masses n = (if n = ELEC then 1 / 4 else if n = HYD then 1 else 3 / 4)"

definition ex_equal_masses :: "nat \<Rightarrow> real" where
  "ex_equal_masses n = (if n = ELEC then 1 / 1836 else 1)"

definition ex_block_state :: BlockState where
  "ex_block_state = \<lparr>phydro_w = (\<lambda>c. Num 1), phydro_u = (\<lambda>c. 1), pscalars_s = (\<lambda>c. 1),
                      pscalars_r = (\<lambda>c. 1), initial_abundances = (\<lambda>c. 1 / 3)\<rparr>"

definition ex_nan_state :: BlockState where
  "ex_nan_state = ex_block_state\<lparr>phydro_w := (\<lambda>c. if c = (IPR, 0, 0, 0) then NaN else Num 1)\<rparr>"


section \<open>Loops\<close>

lemma fold_product:
  "fold (\<lambda>a. fold (f a) bs) as s = fold (\<lambda>(a, b). f a b) (List.product as bs) s"
  by (induction as arbitrary: s) (simp_all add: fold_map comp_def)

lemma fold_preserves:
  assumes "\<And>c s. c \<in> set cells \<Longrightarrow> P s \<Longrightarrow> P (upd c s)" and "P s"
  shows "P (fold upd cells s)"
  using assms by (induction cells arbitrary: s) simp_all

lemma fold_local_other:
  assumes "c \<notin> set cells"
    and other: "\<And>c' s. c' \<noteq> c \<Longrightarrow> get (upd c' s) = get s"
  shows "get (fold upd cells s) = get s"
  using assms(1)
proof (induction cells arbitrary: s)
  case Nil
  then show ?case by simp
next
  case (Cons a cells)
  then have "a \<noteq> c" and "c \<notin> set cells" by auto
  with Cons.IH [of "upd a s"] other [of a s] show ?case by simp
qed

lemma fold_local_at:
  assumes "distinct cells" and "c \<in> set cells"
    and inv: "\<And>c' s. Inv s \<Longrightarrow> Inv (upd c' s)"
    and other: "\<And>c' s. c' \<noteq> c \<Longrightarrow> get (upd c' s) = get s"
    and at: "\<And>s. Inv s \<Longrightarrow> get (upd c s) = F (get s)"
    and "Inv s"
  shows "get (fold upd cells s) = F (get s)"
  using assms(1,2,6)
proof (induction cells arbitrary: s)
  case Nil
  then show ?case by simp
next
  case (Cons a cells)
  show ?case
  proof (cases "a = c")
    case True
    with Cons.prems have notin: "c \<notin> set cells" by simp
    have "get (fold upd cells (upd c s)) = get (upd c s)"
      using notin by (rule fold_local_other) (rule other)
    with True at [OF Cons.prems(3)] show ?thesis by simp
  next
    case False
    with Cons.prems have "distinct cells" "c \<in> set cells" by auto
    from Cons.IH [OF this inv [OF Cons.prems(3)], of a] other [of a s] False
    show ?thesis by simp
  qed
qed

lemma for_each_append:
  "for_each (as @ bs) body s =
     (case for_each as body s of Inl e \<Rightarrow> Inl e | Inr s' \<Rightarrow> for_each bs body s')"
  by (induction as arbitrary: s) (simp_all split: sum.splits)

lemma for_each_map:
  "for_each (map f as) body s = for_each as (\<lambda>a. body (f a)) s"
  by (induction as arbitrary: s) (simp_all split: sum.splits)

lemma for_each_product:
  "for_each as (\<lambda>a. for_each bs (body a)) s =
   for_each (List.product as bs) (\<lambda>(a, b). body a b) s"
  by (induction as arbitrary: s) (simp_all add: for_each_append for_each_map split: sum.splits)

lemma for_each_total:
  assumes "\<And>c s. c \<in> set cells \<Longrightarrow> body c s = Inr (upd c s)"
  shows "for_each cells body s = Inr (fold upd cells s)"
  using assms by (induction cells arbitrary: s) simp_all

lemma for_each_checked:
  assumes body: "\<And>c s. body c s = (if ok c s then Inr (upd c s) else Inl (err c s))"
    and frame: "\<And>c c' s. c \<noteq> c' \<Longrightarrow> ok c (upd c' s) = ok c s"
    and "distinct cells" and "\<forall>c\<in>set cells. ok c s"
  shows "for_each cells body s = Inr (fold upd cells s)"
  using assms(3,4)
proof (induction cells arbitrary: s)
  case Nil
  then show ?case by simp
next
  case (Cons a cells)
  from Cons.prems have "\<forall>c\<in>set cells. ok c (upd a s)"
    using frame by (metis distinct.simps(2) list.set_intros(2))
  with Cons.IH [of "upd a s"] Cons.prems show ?case by (simp add: body)
qed

lemma for_each_fails:
  assumes body: "\<And>c s. body c s = (if ok c s then Inr (upd c s) else Inl (err c s))"
    and frame: "\<And>c c' s. c \<noteq> c' \<Longrightarrow> ok c (upd c' s) = ok c s"
    and frame_err: "\<And>c c' s. c \<noteq> c' \<Longrightarrow> err c (upd c' s) = err c s"
    and "distinct cells" and "\<exists>c\<in>set cells. \<not> ok c s"
  shows "\<exists>c\<in>set cells. \<not> ok c s \<and> for_each cells body s = Inl (err c s)"
  using assms(4,5)
proof (induction cells arbitrary: s)
  case Nil
  then show ?case by simp
next
  case (Cons a cells)
  show ?case
  proof (cases "ok a s")
    case False
    then show ?thesis by (simp add: body)
  next
    case True
    from Cons.prems have d: "distinct cells" and notin: "a \<notin> set cells" by auto
    from Cons.prems True obtain c where c: "c \<in> set cells" "\<not> ok c s" by auto
    with notin have "c \<noteq> a" by auto
    with c frame have "\<exists>c\<in>set cells. \<not> ok c (upd a s)" by blast
    from Cons.IH [OF d this] obtain c' where
      c': "c' \<in> set cells" "\<not> ok c' (upd a s)" "for_each cells body (upd a s) = Inl (err c' (upd a s))"
      by blast
    from c'(1) notin have ne: "c' \<noteq> a" by auto
    with c' frame frame_err have "\<not> ok c' s" "err c' (upd a s) = err c' s" by auto
    moreover have "for_each (a # cells) body s = for_each cells body (upd a s)"
      using True body [of a s] by simp
    ultimately show ?thesis using c' by auto
  qed
qed

lemma fold_product3:
  "fold (\<lambda>a. fold (\<lambda>b. fold (f a b) es) bs) as s =
   fold (\<lambda>(a, b, e). f a b e) (List.product as (List.product bs es)) s"
proof -
  have "(\<lambda>a. fold (\<lambda>b. fold (f a b) es) bs) = (\<lambda>a. fold (\<lambda>(b, e). f a b e) (List.product bs es))"
    by (rule ext, rule ext) (rule fold_product)
  then show ?thesis
    using fold_product [where f = "\<lambda>a (b, e). f a b e" and as = as and bs = "List.product bs es" and s = s]
    by simp
qed

lemma for_each_product3:
  "for_each as (\<lambda>a. for_each bs (\<lambda>b. for_each es (body a b))) s =
   for_each (List.product as (List.product bs es)) (\<lambda>(a, b, e). body a b e) s"
proof -
  have "(\<lambda>a. for_each bs (\<lambda>b. for_each es (body a b))) =
        (\<lambda>a. for_each (List.product bs es) (\<lambda>(b, e). body a b e))"
    by (rule ext, rule ext) (rule for_each_product)
  then show ?thesis
    using for_each_product [where body = "\<lambda>a (b, e). body a b e" and as = as and bs = "List.product bs es" and s = s]
    by simp
qed

lemma fold3_preserves:
  assumes "\<And>a b e s. P s \<Longrightarrow> P (upd a b e s)" and "P s"
  shows "P (fold (\<lambda>a. fold (\<lambda>b. fold (upd a b) es) bs) as s)"
  unfolding fold_product3
  by (rule fold_preserves [where P = P]) (use assms in auto)

lemma fold3_other:
  assumes "\<not> (a \<in> set as \<and> b \<in> set bs \<and> e \<in> set es)"
    and other: "\<And>a' b' e' s. (a', b', e') \<noteq> (a, b, e) \<Longrightarrow> get (upd a' b' e' s) = get s"
  shows "get (fold (\<lambda>a. fold (\<lambda>b. fold (upd a b) es) bs) as s) = get s"
  unfolding fold_product3
proof (rule fold_local_other [where c = "(a, b, e)"])
  show "(a, b, e) \<notin> set (List.product as (List.product bs es))"
    using assms(1) by auto
next
  fix c' s
  assume "c' \<noteq> (a, b, e)"
  then show "get ((case c' of (a, b, e) \<Rightarrow> upd a b e) s) = get s"
    using other by (cases c') auto
qed

lemma fold3_at:
  assumes "a \<in> set as" "b \<in> set bs" "e \<in> set es"
    and "distinct as" "distinct bs" "distinct es"
    and inv: "\<And>a' b' e' s. Inv s \<Longrightarrow> Inv (upd a' b' e' s)"
    and other: "\<And>a' b' e' s. (a', b', e') \<noteq> (a, b, e) \<Longrightarrow> get (upd a' b' e' s) = get s"
    and at: "\<And>s. Inv s \<Longrightarrow> get (upd a b e s) = F (get s)"
    and "Inv s"
  shows "get (fold (\<lambda>a. fold (\<lambda>b. fold (upd a b) es) bs) as s) = F (get s)"
  unfolding fold_product3
proof (rule fold_local_at [where c = "(a, b, e)" and Inv = Inv])
  show "distinct (List.product as (List.product bs es))"
    using assms(4-6) by (simp add: distinct_product)
  show "(a, b, e) \<in> set (List.product as (List.product bs es))"
    using assms(1-3) by simp
  show "Inv s" by fact
next
  fix c' s
  assume "Inv s"
  then show "Inv ((case c' of (a, b, e) \<Rightarrow> upd a b e) s)"
    using inv by (cases c') auto
next
  fix c' s
  assume "c' \<noteq> (a, b, e)"
  then show "get ((case c' of (a, b, e) \<Rightarrow> upd a b e) s) = get s"
    using other by (cases c') auto
next
  fix s
  assume "Inv s"
  then show "get ((case (a, b, e) of (a, b, e) \<Rightarrow> upd a b e) s) = F (get s)"
    using at by simp
qed


lemma fold_local_at2:
  assumes "distinct cells" and "c \<in> set cells"
    and inv: "\<And>c' s. Inv s \<Longrightarrow> Inv (upd c' s)"
    and other: "\<And>c' s. c' \<noteq> c \<Longrightarrow> get (upd c' s) = get s"
    and local: "\<And>s s'. Inv s \<Longrightarrow> Inv s' \<Longrightarrow> get s = get s' \<Longrightarrow> get (upd c s) = get (upd c s')"
    and "Inv s"
  shows "get (fold upd cells s) = get (upd c s)"
  using assms(1,2,6)
proof (induction cells arbitrary: s)
  case Nil
  then show ?case by simp
next
  case (Cons a cells)
  show ?case
  proof (cases "a = c")
    case True
    with Cons.prems have notin: "c \<notin> set cells" by simp
    have "get (fold upd cells (upd c s)) = get (upd c s)"
      using notin by (rule fold_local_other) (rule other)
    with True show ?thesis by simp
  next
    case False
    with Cons.prems have "distinct cells" "c \<in> set cells" by auto
    from Cons.IH [OF this inv [OF Cons.prems(3)], of a]
    have "get (fold upd (a # cells) s) = get (upd c (upd a s))" by simp
    also have "\<dots> = get (upd c s)"
      by (rule local [OF inv [OF Cons.prems(3)] Cons.prems(3)]) (rule other [OF False])
    finally show ?thesis .
  qed
qed

lemma fold3_at2:
  assumes "a \<in> set as" "b \<in> set bs" "e \<in> set es"
    and "distinct as" "distinct bs" "distinct es"
    and inv: "\<And>a' b' e' s. Inv s \<Longrightarrow> Inv (upd a' b' e' s)"
    and other: "\<And>a' b' e' s. (a', b', e') \<noteq> (a, b, e) \<Longrightarrow> get (upd a' b' e' s) = get s"
    and local: "\<And>s s'. Inv s \<Longrightarrow> Inv s' \<Longrightarrow> get s = get s' \<Longrightarrow> get (upd a b e s) = get (upd a b e s')"
    and "Inv s"
  shows "get (fold (\<lambda>a. fold (\<lambda>b. fold (upd a b) es) bs) as s) = get (upd a b e s)"
proof -
  have "get (fold (\<lambda>(a, b, e). upd a b e) (List.product as (List.product bs es)) s)
        = get ((\<lambda>(a, b, e). upd a b e) (a, b, e) s)"
  proof (rule fold_local_at2 [where c = "(a, b, e)" and Inv = Inv])
    show "distinct (List.product as (List.product bs es))"
      using assms(4-6) by (simp add: distinct_product)
    show "(a, b, e) \<in> set (List.product as (List.product bs es))"
      using assms(1-3) by simp
    show "Inv s" by fact
  next
    fix c' s
    assume "Inv s"
    then show "Inv ((case c' of (a, b, e) \<Rightarrow> upd a b e) s)"
      using inv by (cases c') auto
  next
    fix c' s
    assume "c' \<noteq> (a, b, e)"
    then show "get ((case c' of (a, b, e) \<Rightarrow> upd a b e) s) = get s"
      using other by (cases c') auto
  next
    fix s s'
    assume "Inv s" "Inv s'" "get s = get s'"
    then have "get (upd a b e s) = get (upd a b e s')"
      by (rule local)
    then show "get ((case (a, b, e) of (a, b, e) \<Rightarrow> upd a b e) s)
             = get ((case (a, b, e) of (a, b, e) \<Rightarrow> upd a b e) s')"
      by (simp only: prod.case)
  qed
  then show ?thesis by (simp add: fold_product3)
qed

lemma for_each3_total:
  assumes "\<And>a b e s. body a b e s = Inr (upd a b e s)"
  shows "for_each as (\<lambda>a. for_each bs (\<lambda>b. for_each es (body a b))) s
         = Inr (fold (\<lambda>a. fold (\<lambda>b. fold (upd a b) es) bs) as s)"
  unfolding for_each_product3 fold_product3
  by (rule for_each_total) (auto simp: assms)

lemma for_each3_checked:
  assumes body: "\<And>a b e s. body a b e s = (if ok a b e s then Inr (upd a b e s) else Inl (err a b e s))"
    and frame: "\<And>a b e a' b' e' s. (a, b, e) \<noteq> (a', b', e') \<Longrightarrow> ok a b e (upd a' b' e' s) = ok a b e s"
    and "distinct as" "distinct bs" "distinct es"
    and all: "\<And>a b e. a \<in> set as \<Longrightarrow> b \<in> set bs \<Longrightarrow> e \<in> set es \<Longrightarrow> ok a b e s"
  shows "for_each as (\<lambda>a. for_each bs (\<lambda>b. for_each es (body a b))) s
         = Inr (fold (\<lambda>a. fold (\<lambda>b. fold (upd a b) es) bs) as s)"
  unfolding for_each_product3 fold_product3
proof (rule for_each_checked [where ok = "\<lambda>(a, b, e). ok a b e" and err = "\<lambda>(a, b, e). err a b e"])
  show "distinct (List.product as (List.product bs es))"
    using assms(3-5) by (simp add: distinct_product)
  show "\<forall>c\<in>set (List.product as (List.product bs es)). (case c of (a, b, e) \<Rightarrow> ok a b e) s"
    using all by auto
next
  fix c s
  show "(case c of (a, b, e) \<Rightarrow> body a b e) s =
        (if (case c of (a, b, e) \<Rightarrow> ok a b e) s then Inr ((case c of (a, b, e) \<Rightarrow> upd a b e) s)
         else Inl ((case c of (a, b, e) \<Rightarrow> err a b e) s))"
    by (cases c) (simp add: body)
next
  fix c c' :: "'a \<times> 'b \<times> 'c" and s
  assume "c \<noteq> c'"
  then show "(case c of (a, b, e) \<Rightarrow> ok a b e) ((case c' of (a, b, e) \<Rightarrow> upd a b e) s)
           = (case c of (a, b, e) \<Rightarrow> ok a b e) s"
    using frame by (cases c; cases c') auto
qed

lemma for_each3_fails:
  assumes body: "\<And>a b e s. body a b e s = (if ok a b e s then Inr (upd a b e s) else Inl (err a b e s))"
    and frame: "\<And>a b e a' b' e' s. (a, b, e) \<noteq> (a', b', e') \<Longrightarrow> ok a b e (upd a' b' e' s) = ok a b e s"
    and frame_err: "\<And>a b e a' b' e' s. (a, b, e) \<noteq> (a', b', e') \<Longrightarrow> err a b e (upd a' b' e' s) = err a b e s"
    and "distinct as" "distinct bs" "distinct es"
    and ex: "ax \<in> set as" "bx \<in> set bs" "ex \<in> set es" "\<not> ok ax bx ex s"
  shows "\<exists>a b e. a \<in> set as \<and> b \<in> set bs \<and> e \<in> set es \<and> \<not> ok a b e s \<and>
           for_each as (\<lambda>a. for_each bs (\<lambda>b. for_each es (body a b))) s = Inl (err a b e s)"
proof -
  have "\<exists>c\<in>set (List.product as (List.product bs es)). \<not> (case c of (a, b, e) \<Rightarrow> ok a b e) s \<and>
          for_each (List.product as (List.product bs es)) (\<lambda>(a, b, e). body a b e) s
            = Inl ((case c of (a, b, e) \<Rightarrow> err a b e) s)"
  proof (rule for_each_fails [where upd = "\<lambda>(a, b, e). upd a b e"])
    show "distinct (List.product as (List.product bs es))"
      using assms(4-6) by (simp add: distinct_product)
    show "\<exists>c\<in>set (List.product as (List.product bs es)). \<not> (case c of (a, b, e) \<Rightarrow> ok a b e) s"
      using ex by (intro bexI [of _ "(ax, bx, ex)"]) auto
  next
    fix c s
    show "(case c of (a, b, e) \<Rightarrow> body a b e) s =
          (if (case c of (a, b, e) \<Rightarrow> ok a b e) s then Inr ((case c of (a, b, e) \<Rightarrow> upd a b e) s)
           else Inl ((case c of (a, b, e) \<Rightarrow> err a b e) s))"
      by (cases c) (simp add: body)
  next
    fix c c' :: "'a \<times> 'b \<times> 'c" and s
    assume "c \<noteq> c'"
    then show "(case c of (a, b, e) \<Rightarrow> ok a b e) ((case c' of (a, b, e) \<Rightarrow> upd a b e) s)
             = (case c of (a, b, e) \<Rightarrow> ok a b e) s"
      using frame by (cases c; cases c') auto
  next
    fix c c' :: "'a \<times> 'b \<times> 'c" and s
    assume "c \<noteq> c'"
    then show "(case c of (a, b, e) \<Rightarrow> err a b e) ((case c' of (a, b, e) \<Rightarrow> upd a b e) s)
             = (case c of (a, b, e) \<Rightarrow> err a b e) s"
      using frame_err by (cases c; cases c') auto
  qed
  then show ?thesis
    unfolding for_each_product3 by auto
qed


section \<open>Energy partition: properties\<close>

lemma energy_functions_step_other:
  "m \<noteq> n \<Longrightarrow> h (energy_functions_step spec n a) m = h a m \<and> q (energy_functions_step spec n a) m = q a m"
  by (simp add: energy_functions_step_def Let_def)

lemma energy_functions_step_consts:
  "lambda_0 (energy_functions_step spec n a) = lambda_0 a \<and>
   wavelength_coefficient (energy_functions_step spec n a) = wavelength_coefficient a"
  by (simp add: energy_functions_step_def Let_def)

lemma energy_functions_step_at:
  "h (energy_functions_step spec n a) n =
     (if wave (spec n) * wavelength_coefficient a > lambda_0 a then 0
      else wave (spec n) * wavelength_coefficient a / lambda_0 a) \<and>
   q (energy_functions_step spec n a) n =
     (if wave (spec n) * wavelength_coefficient a > lambda_0 a then 0
      else 1 - wave (spec n) * wavelength_coefficient a / lambda_0 a)"
  by (simp add: energy_functions_step_def Let_def)

lemma energy_functions_fold_consts:
  "lambda_0 (fold (energy_functions_step spec) ns a) = lambda_0 a \<and>
   wavelength_coefficient (fold (energy_functions_step spec) ns a) = wavelength_coefficient a"
  by (induction ns arbitrary: a) (simp_all add: energy_functions_step_consts)

lemma energy_functions_fold_other:
  "n \<notin> set ns \<Longrightarrow>
   h (fold (energy_functions_step spec) ns a) n = h a n \<and>
   q (fold (energy_functions_step spec) ns a) n = q a n"
proof (induction ns arbitrary: a)
  case Nil
  then show ?case by simp
next
  case (Cons m ns)
  then have "m \<noteq> n" and "n \<notin> set ns" by auto
  with Cons.IH [of "energy_functions_step spec m a"] show ?case
    using energy_functions_step_other [of n m spec a] by simp
qed

lemma energy_functions_fold_at:
  "n \<in> set ns \<Longrightarrow> distinct ns \<Longrightarrow>
   h (fold (energy_functions_step spec) ns a) n =
     (if wave (spec n) * wavelength_coefficient a > lambda_0 a then 0
      else wave (spec n) * wavelength_coefficient a / lambda_0 a) \<and>
   q (fold (energy_functions_step spec) ns a) n =
     (if wave (spec n) * wavelength_coefficient a > lambda_0 a then 0
      else 1 - wave (spec n) * wavelength_coefficient a / lambda_0 a)"
proof (induction ns arbitrary: a)
  case Nil
  then show ?case by simp
next
  case (Cons m ns)
  show ?case
  proof (cases "m = n")
    case True
    with Cons.prems have "n \<notin> set ns" by simp
    from energy_functions_fold_other [OF this, of spec "energy_functions_step spec n a"]
    show ?thesis using True energy_functions_step_at [of spec n a] by simp
  next
    case False
    with Cons.prems have "n \<in> set ns" and "distinct ns" by auto
    from Cons.IH [OF this, of "energy_functions_step spec m a"]
    show ?thesis using energy_functions_step_consts [of spec m a] by simp
  qed
qed

text \<open>
  C2, the claim as it stands, read at the threshold itself: a sample whose wavelength
  equals \<open>lambda_0\<close> is "at or above the threshold wavelength", for which the claim
  asks \<open>h = q = 0\<close>. The code tests \<open>wave > lambda_0\<close>, so at equality it takes the
  other branch and stores \<open>h = 1\<close>. Sample 0 of \<open>ex_spec\<close> is at the threshold of
  \<open>ex_absorber\<close>.
\<close>

theorem C2_at_threshold_counterexample:
  "wave (ex_spec 0) * wavelength_coefficient ex_absorber \<ge> lambda_0 ex_absorber
   \<and> h (CalculateEnergyFunctions ex_absorber ex_spec 3) 0 = 1
   \<and> \<not> (h (CalculateEnergyFunctions ex_absorber ex_spec 3) 0 = 0
          \<and> q (CalculateEnergyFunctions ex_absorber ex_spec 3) 0 = 0)"
  using energy_functions_fold_at [of 0 "[0..<3]" ex_spec ex_absorber]
  by (simp add: CalculateEnergyFunctions_def ex_absorber_def ex_spec_def)

text \<open>
  C2, amended: for every spectral sample \<open>n < nspec\<close>, with \<open>wv\<close> the sample's wavelength
  times the band's wavelength coefficient: if \<open>wv\<close> is strictly above the threshold
  wavelength then \<open>h = q = 0\<close>; otherwise (at or below it) \<open>h = wv / lambda_0\<close> and
  \<open>q = 1 - h\<close>. For a positive threshold wavelength this gives \<open>h = 1, q = 0\<close> at the
  threshold and \<open>h = q = 1/2\<close> at half the threshold.
\<close>

theorem C2_energy_partition:
  assumes "n < nspec"
  shows "(wave (spec n) * wavelength_coefficient a > lambda_0 a \<longrightarrow>
            h (CalculateEnergyFunctions a spec nspec) n = 0 \<and>
            q (CalculateEnergyFunctions a spec nspec) n = 0)
       \<and> (wave (spec n) * wavelength_coefficient a \<le> lambda_0 a \<longrightarrow>
            h (CalculateEnergyFunctions a spec nspec) n = wave (spec n) * wavelength_coefficient a / lambda_0 a \<and>
            q (CalculateEnergyFunctions a spec nspec) n = 1 - h (CalculateEnergyFunctions a spec nspec) n)
       \<and> (0 < lambda_0 a \<and> wave (spec n) * wavelength_coefficient a = lambda_0 a \<longrightarrow>
            h (CalculateEnergyFunctions a spec nspec) n = 1 \<and>
            q (CalculateEnergyFunctions a spec nspec) n = 0)
       \<and> (0 < lambda_0 a \<and> wave (spec n) * wavelength_coefficient a = lambda_0 a / 2 \<longrightarrow>
            h (CalculateEnergyFunctions a spec nspec) n = 1 / 2 \<and>
            q (CalculateEnergyFunctions a spec nspec) n = 1 / 2)"
proof -
  from assms have mem: "n \<in> set [0..<nspec]" and dist: "distinct [0..<nspec]" by simp_all
  note at = energy_functions_fold_at [OF mem dist, of spec a, folded CalculateEnergyFunctions_def]
  show ?thesis using at by auto
qed

theorem C2_energy_partition_witness:
  "h (CalculateEnergyFunctions ex_absorber ex_spec 3) 0 = 1
   \<and> q (CalculateEnergyFunctions ex_absorber ex_spec 3) 0 = 0
   \<and> h (CalculateEnergyFunctions ex_absorber ex_spec 3) 1 = 1 / 2
   \<and> q (CalculateEnergyFunctions ex_absorber ex_spec 3) 1 = 1 / 2
   \<and> h (CalculateEnergyFunctions ex_absorber ex_spec 3) 2 = 0
   \<and> q (CalculateEnergyFunctions ex_absorber ex_spec 3) 2 = 0"
  using C2_energy_partition [where n = 0 and nspec = 3 and spec = ex_spec and a = ex_absorber]
        C2_energy_partition [where n = 1 and nspec = 3 and spec = ex_spec and a = ex_absorber]
        C2_energy_partition [where n = 2 and nspec = 3 and spec = ex_spec and a = ex_absorber]
  by (simp add: ex_absorber_def ex_spec_def)


section \<open>The source terms of the hand-coded problem generator: properties\<close>

lemma source_cell_rad_flux_ion:
  "rad_flux_ion (source_cell inp dt k j i st) = rad_flux_ion st"
  by (simp add: source_cell_def Let_def)

lemma source_cell_ds:
  "ds (source_cell inp dt k j i st) (n, k', j', i') =
     (if (k', j', i') = (k, j, i) \<and> n = 0 then
        ds st (0, k, j, i) + (n_recomb inp dt k j i - n_ion_gain inp dt (rad_flux_ion st) k j i) * mh
      else if (k', j', i') = (k, j, i) \<and> n = 1 then
        ds st (1, k, j, i) + (- n_recomb inp dt k j i + n_ion_gain inp dt (rad_flux_ion st) k j i) * mh
      else ds st (n, k', j', i'))"
  by (simp add: source_cell_def Let_def)

lemma source_loop_rad_flux_ion:
  "rad_flux_ion (source_loop inp dt st) = rad_flux_ion st"
  unfolding source_loop_def
  by (rule fold3_preserves [where P = "\<lambda>t. rad_flux_ion t = rad_flux_ion st"])
     (simp_all add: source_cell_rad_flux_ion)

lemma source_loop_ds_interior:
  assumes "interior (pmb inp) k j i"
  shows "ds (source_loop inp dt st) (n, k, j, i) =
     (if n = 0 then
        ds st (0, k, j, i) + (n_recomb inp dt k j i - n_ion_gain inp dt (rad_flux_ion st) k j i) * mh
      else if n = 1 then
        ds st (1, k, j, i) + (- n_recomb inp dt k j i + n_ion_gain inp dt (rad_flux_ion st) k j i) * mh
      else ds st (n, k, j, i))"
  unfolding source_loop_def
  by (rule fold3_at [where a = k and b = j and e = i
      and Inv = "\<lambda>t. rad_flux_ion t = rad_flux_ion st"
      and get = "\<lambda>t. ds t (n, k, j, i)"
      and F = "\<lambda>v. if n = 0 then v + (n_recomb inp dt k j i - n_ion_gain inp dt (rad_flux_ion st) k j i) * mh
               else if n = 1 then v + (- n_recomb inp dt k j i + n_ion_gain inp dt (rad_flux_ion st) k j i) * mh
               else v", THEN trans])
     (use assms in \<open>auto simp: interior_def source_cell_rad_flux_ion source_cell_ds\<close>)

lemma source_loop_ds_exterior:
  assumes "\<not> interior (pmb inp) k j i"
  shows "ds (source_loop inp dt st) (n, k, j, i) = ds st (n, k, j, i)"
  unfolding source_loop_def
  by (rule fold3_other [where a = k and b = j and e = i and get = "\<lambda>t. ds t (n, k, j, i)"])
     (use assms in \<open>auto simp: interior_def source_cell_ds\<close>)

lemma SourceTerms_ds: "ds (SourceTerms inp dt st) = ds (source_loop inp dt st)"
  by (simp add: SourceTerms_def)

text \<open>
  C7: for every cell and every timestep, the changes that \<open>SourceTerms\<close> adds to the
  two species' mass densities (\<open>ds(0)\<close>, neutral, and \<open>ds(1)\<close>, ionized) sum to zero:
  the sum of the two components of \<open>ds\<close> is the same after the call as before, in
  every cell.
\<close>

theorem C7_species_mass_conserved:
  "ds (SourceTerms inp dt st) (0, k, j, i) + ds (SourceTerms inp dt st) (1, k, j, i)
     = ds st (0, k, j, i) + ds st (1, k, j, i)"
proof (cases "interior (pmb inp) k j i")
  case True
  then show ?thesis
    by (simp add: SourceTerms_ds source_loop_ds_interior algebra_simps)
next
  case False
  then show ?thesis
    by (simp add: SourceTerms_ds source_loop_ds_exterior)
qed

















section \<open>The cross-section table: properties\<close>

lemma load_file_spec_result:
  "load_file_spec rows acc = Inl NotAscending \<or>
   load_file_spec rows acc = Inr (acc @ map (\<lambda>row. \<lparr>ft_x = fst row, ft_y = snd row, ft_z = 0\<rparr>) rows)"
proof (induction rows arbitrary: acc)
  case Nil
  then show ?case by simp
next
  case (Cons row rows)
  show ?case
  proof (cases "acc \<noteq> [] \<and> fst row < ft_x (last acc)")
    case True
    then show ?thesis by (auto simp: Let_def)
  next
    case False
    then have "load_file_spec (row # rows) acc
        = load_file_spec rows (acc @ [\<lparr>ft_x = fst row, ft_y = snd row, ft_z = 0\<rparr>])"
      by (auto simp: Let_def)
    with Cons.IH [of "acc @ [\<lparr>ft_x = fst row, ft_y = snd row, ft_z = 0\<rparr>]"]
    show ?thesis by auto
  qed
qed

lemma load_file_spec_fails_iff:
  "load_file_spec rows acc = Inl NotAscending \<longleftrightarrow>
     \<not> sorted ((if acc = [] then [] else [ft_x (last acc)]) @ map fst rows)"
proof (induction rows arbitrary: acc)
  case Nil
  then show ?case by simp
next
  case (Cons row rows)
  show ?case
  proof (cases "acc \<noteq> [] \<and> fst row < ft_x (last acc)")
    case True
    then show ?thesis by (auto simp: Let_def)
  next
    case False
    then have "load_file_spec (row # rows) acc
        = load_file_spec rows (acc @ [\<lparr>ft_x = fst row, ft_y = snd row, ft_z = 0\<rparr>])"
      by (auto simp: Let_def)
    with Cons.IH [of "acc @ [\<lparr>ft_x = fst row, ft_y = snd row, ft_z = 0\<rparr>]"] False
    show ?thesis
      by (cases "acc = []") (simp_all add: not_less sorted2 del: sorted_wrt.simps)
  qed
qed

text \<open>
  C4, the claim as it stands, on the table \<open>ex_rows\<close>, whose two rows have the same
  value of the independent variable: the claim says that the load aborts. The
  test of the code is \<open>file_spec[i].x < file_spec[i-1].x\<close>, which equal values pass:
  the table is loaded, and \<open>CalculateCrossSections\<close> returns normally.
\<close>

theorem C4_equal_rows_counterexample:
  "fst (ex_rows ! 0) = fst (ex_rows ! 1)
   \<and> load_file_spec ex_rows [] = Inr [\<lparr>ft_x = 1, ft_y = 5, ft_z = 0\<rparr>, \<lparr>ft_x = 1, ft_y = 6, ft_z = 0\<rparr>]
   \<and> CalculateCrossSections ex_constants ex_interp ex_rows ex_absorber ex_spec 0 = Inr ex_absorber"
  by (simp add: ex_rows_def CalculateCrossSections_def ex_interp_def Let_def)

text \<open>
  C4, amended: loading a cross-section table fails with the fatal ascending-order
  error exactly when some row has a strictly smaller value of the independent variable
  than the row before it, and then \<open>CalculateCrossSections\<close> as a whole fails with that
  error. A table in which every row is at least the row before it (equal consecutive
  values included) passes the check and is copied row by row.
\<close>

theorem C4_table_order:
  "(load_file_spec file_data [] = Inl NotAscending
      \<longleftrightarrow> (\<exists>n. Suc n < length file_data \<and> fst (file_data ! Suc n) < fst (file_data ! n)))
   \<and> ((\<exists>n. Suc n < length file_data \<and> fst (file_data ! Suc n) < fst (file_data ! n))
        \<longrightarrow> CalculateCrossSections c ip file_data a spec nspec = Inl NotAscending)
   \<and> ((\<forall>n. Suc n < length file_data \<longrightarrow> fst (file_data ! n) \<le> fst (file_data ! Suc n))
        \<longrightarrow> load_file_spec file_data []
              = Inr (map (\<lambda>row. \<lparr>ft_x = fst row, ft_y = snd row, ft_z = 0\<rparr>) file_data))"
proof -
  have iff: "load_file_spec file_data [] = Inl NotAscending
      \<longleftrightarrow> (\<exists>n. Suc n < length file_data \<and> fst (file_data ! Suc n) < fst (file_data ! n))"
    by (auto simp: load_file_spec_fails_iff sorted_iff_nth_Suc not_le)
  moreover have "load_file_spec file_data [] \<noteq> Inl NotAscending \<Longrightarrow>
      load_file_spec file_data [] = Inr (map (\<lambda>row. \<lparr>ft_x = fst row, ft_y = snd row, ft_z = 0\<rparr>) file_data)"
    using load_file_spec_result [of file_data "[]"] by simp
  ultimately show ?thesis
    by (auto simp: CalculateCrossSections_def not_less)
qed

theorem C4_table_order_witness:
  "load_file_spec [(2, 5), (1, 6)] [] = Inl NotAscending
   \<and> CalculateCrossSections ex_constants ex_interp [(2, 5), (1, 6)] ex_absorber ex_spec 3 = Inl NotAscending
   \<and> load_file_spec [(1, 5), (1, 6), (2, 7)] []
       = Inr [\<lparr>ft_x = 1, ft_y = 5, ft_z = 0\<rparr>, \<lparr>ft_x = 1, ft_y = 6, ft_z = 0\<rparr>, \<lparr>ft_x = 2, ft_y = 7, ft_z = 0\<rparr>]"
proof -
  have d: "\<exists>n. Suc n < length [(2::real, 5::real), (1, 6)]
             \<and> fst ([(2::real, 5::real), (1, 6)] ! Suc n) < fst ([(2::real, 5::real), (1, 6)] ! n)"
    by (rule exI [of _ 0]) simp
  have s: "\<forall>n. Suc n < length [(1::real, 5::real), (1, 6), (2, 7)]
             \<longrightarrow> fst ([(1::real, 5::real), (1, 6), (2, 7)] ! n) \<le> fst ([(1::real, 5::real), (1, 6), (2, 7)] ! Suc n)"
    by (auto simp: less_Suc_eq nth_Cons')
  from C4_table_order [of "[(2, 5), (1, 6)]" ex_constants ex_interp ex_absorber ex_spec 3] d
  have "load_file_spec [(2, 5), (1, 6)] [] = Inl NotAscending"
    and "CalculateCrossSections ex_constants ex_interp [(2, 5), (1, 6)] ex_absorber ex_spec 3 = Inl NotAscending"
    by blast+
  moreover from C4_table_order [of "[(1, 5), (1, 6), (2, 7)]" ex_constants ex_interp ex_absorber ex_spec 3] s
  have "load_file_spec [(1, 5), (1, 6), (2, 7)] []
       = Inr (map (\<lambda>row. \<lparr>ft_x = fst row, ft_y = snd row, ft_z = 0\<rparr>) [(1, 5), (1, 6), (2, 7)])"
    by blast
  ultimately show ?thesis by simp
qed


lemma sample_energy_finite:
  assumes "wave (spec n) * wavelength_coefficient a \<noteq> 0" and "eV_conversion c \<noteq> 0"
  shows "sample_energy c a spec n
           = Fin (planck_constant c * (speed_of_light c / (wave (spec n) * wavelength_coefficient a))
                    / eV_conversion c)"
  using assms by (simp add: sample_energy_def fdiv_def xmul_def xdiv_def Let_def)

lemma sample_energy_zero_wavelength:
  assumes "wave (spec n) * wavelength_coefficient a = 0"
    and "0 < speed_of_light c" "0 < planck_constant c" "0 < eV_conversion c"
  shows "sample_energy c a spec n = PInf"
  using assms by (simp add: sample_energy_def fdiv_def xmul_def xdiv_def Let_def)

lemma cross_section_step_zero_wavelength:
  assumes "file_spec \<noteq> []" and "wave (spec n) * wavelength_coefficient a = 0"
    and "0 < speed_of_light c" "0 < planck_constant c" "0 < eV_conversion c"
  shows "cross_section_step c ip file_spec spec n (a, ii) = Inl EnergyTooHigh"
  using assms sample_energy_zero_wavelength [of spec n a c]
  by (simp add: cross_section_step_def Let_def xless_def xgreater_def)

lemma cross_section_step_cases:
  assumes "file_spec \<noteq> []" and "sample_energy c a spec n = Fin energy" and "ry_conversion c \<noteq> 0"
  shows "(energy < ft_x (file_spec ! 0) \<longrightarrow>
            cross_section_step c ip file_spec spec n (a, ii)
              = Inr (a\<lparr>crossSection := (crossSection a)(n := 0)\<rparr>, ii))
       \<and> (ft_x (file_spec ! 0) \<le> energy \<and> energy > ft_x (last file_spec) \<longrightarrow>
            cross_section_step c ip file_spec spec n (a, ii) = Inl EnergyTooHigh)
       \<and> (ft_x (file_spec ! 0) \<le> energy \<and> energy \<le> ft_x (last file_spec) \<and>
          0 \<le> fst (find_place_in_table ip (length file_spec) file_spec (energy / ry_conversion c) ii) \<and>
          fst (find_place_in_table ip (length file_spec) file_spec (energy / ry_conversion c) ii)
            < int (length file_spec) \<longrightarrow>
            cross_section_step c ip file_spec spec n (a, ii)
              = Inr (a\<lparr>crossSection := (crossSection a)(n :=
                        splint ip (energy / ry_conversion c)
                          (drop (nat (fst (find_place_in_table ip (length file_spec) file_spec
                                            (energy / ry_conversion c) ii))) file_spec)
                          (snd (find_place_in_table ip (length file_spec) file_spec
                                  (energy / ry_conversion c) ii))
                        * mb_conversion c)\<rparr>,
                     fst (find_place_in_table ip (length file_spec) file_spec
                            (energy / ry_conversion c) ii)))"
  using assms
  by (simp add: cross_section_step_def Let_def last_conv_nth not_less xless_def xgreater_def
      xdiv_def fdiv_def)

lemma ex_units_energy:
  "sample_energy ex_constants_ry ex_absorber ex_spec_units 0 = Fin 1"
  "sample_energy ex_constants_ry ex_absorber ex_spec_units 1 = Fin 4"
  by (simp_all add: sample_energy_def fdiv_def xmul_def xdiv_def Let_def
      ex_constants_ry_def ex_absorber_def ex_spec_units_def)

lemma ex_units_step_low:
  "cross_section_step ex_constants_ry ex_probe ex_table ex_spec_units 0 (ex_absorber, - 1)
     = Inr (ex_absorber\<lparr>crossSection := (crossSection ex_absorber)(0 := 1 / 2)\<rparr>, 0)"
proof -
  have ne: "ex_table \<noteq> []" by (simp add: ex_table_def)
  have r: "ry_conversion ex_constants_ry \<noteq> 0" by (simp add: ex_constants_ry_def)
  from cross_section_step_cases [OF ne ex_units_energy(1) r, of ex_probe "- 1"]
  show ?thesis
    by (simp add: ex_table_def ex_probe_def ex_constants_ry_def)
qed

lemma ex_units_step_high:
  "cross_section_step ex_constants_ry ex_probe ex_table ex_spec_units 1 (ex_absorber, - 1)
     = Inl EnergyTooHigh"
proof -
  have ne: "ex_table \<noteq> []" by (simp add: ex_table_def)
  have r: "ry_conversion ex_constants_ry \<noteq> 0" by (simp add: ex_constants_ry_def)
  from cross_section_step_cases [OF ne ex_units_energy(2) r, of ex_probe "- 1"]
  show ?thesis
    by (simp add: ex_table_def)
qed

text \<open>
  C3, on the table \<open>[(1, 5), (3, 6)]\<close> with \<open>ry_conversion = 2\<close> and interpolation
  routines that return the abscissa at which they are asked to evaluate. The sample of
  photon energy 1 passes both range tests, and the table is then evaluated at
  \<open>ry = 1/2\<close>, below its first entry: the value stored is not an interpolation between
  the entries that bracket the point, and it is not zero. The sample of photon energy 4
  fails with the fatal error although \<open>ry = 2\<close>, the abscissa at which the table would
  be evaluated, lies inside the table. The range tests and the evaluation use two
  different abscissae.
\<close>

theorem C3_range_and_lookup_disagree:
  "sample_energy ex_constants_ry ex_absorber ex_spec_units 0 = Fin 1
   \<and> xdiv (Fin 1) (ry_conversion ex_constants_ry) = Fin (1 / 2)
   \<and> CalculateCrossSections ex_constants_ry ex_probe [(1, 5), (3, 6)] ex_absorber ex_spec_units 1
       = Inr (ex_absorber\<lparr>crossSection := (crossSection ex_absorber)(0 := 1 / 2)\<rparr>)
   \<and> sample_energy ex_constants_ry ex_absorber ex_spec_units 1 = Fin 4
   \<and> xdiv (Fin 4) (ry_conversion ex_constants_ry) = Fin 2
   \<and> CalculateCrossSections ex_constants_ry ex_probe [(1, 5), (3, 6)] ex_absorber ex_spec_units 2
       = Inl EnergyTooHigh"
proof -
  have l: "load_file_spec [(1, 5), (3, 6)] [] = Inr ex_table"
    by (simp add: ex_table_def Let_def)
  have s: "spline ex_probe n t u v = t" for n t u v
    by (simp add: ex_probe_def)
  have one: "[0..<1] = [0]" and two: "[0..<2] = [0, 1]"
    by (simp_all add: upt_rec)
  have wc: "wavelength_coefficient (ex_absorber\<lparr>crossSection := f\<rparr>) = wavelength_coefficient ex_absorber" for f
    by simp
  have e1: "sample_energy ex_constants_ry (ex_absorber\<lparr>crossSection := f\<rparr>) ex_spec_units 1 = Fin 4" for f
    using ex_units_energy(2) by (simp add: sample_energy_def)
  have hi: "cross_section_step ex_constants_ry ex_probe ex_table ex_spec_units 1
              (ex_absorber\<lparr>crossSection := f\<rparr>, 0) = Inl EnergyTooHigh" for f
  proof -
    have ne: "ex_table \<noteq> []" by (simp add: ex_table_def)
    have r: "ry_conversion ex_constants_ry \<noteq> 0" by (simp add: ex_constants_ry_def)
    from cross_section_step_cases [OF ne e1 r, of ex_probe f 0]
    show ?thesis by (simp add: ex_table_def)
  qed
  have a: "CalculateCrossSections ex_constants_ry ex_probe [(1, 5), (3, 6)] ex_absorber ex_spec_units 1
       = Inr (ex_absorber\<lparr>crossSection := (crossSection ex_absorber)(0 := 1 / 2)\<rparr>)"
    by (simp only: CalculateCrossSections_def l) (simp add: s one Let_def ex_units_step_low)
  have b: "CalculateCrossSections ex_constants_ry ex_probe [(1, 5), (3, 6)] ex_absorber ex_spec_units 2
       = Inl EnergyTooHigh"
    using hi by (simp only: CalculateCrossSections_def l) (simp add: s two Let_def ex_units_step_low)
  have c: "xdiv (Fin 1) (ry_conversion ex_constants_ry) = Fin (1 / 2)"
    "xdiv (Fin 4) (ry_conversion ex_constants_ry) = Fin 2"
    by (simp_all add: xdiv_def fdiv_def ex_constants_ry_def)
  from a b c ex_units_energy show ?thesis by simp
qed


section \<open>The radiation source term: properties\<close>

lemma deposit_band_at:
  assumes "interior b k j i"
  shows "deposit_band b dt p dv0 (IEN, k, j, i)
         = dv0 (IEN, k, j, i) - dt * energy_deposition p k j i / CellVolume (pcoord b) k j i"
  unfolding deposit_band_def
  by (rule fold3_at [where a = k and b = j and e = i and Inv = "\<lambda>t. True"
        and get = "\<lambda>t. t (IEN, k, j, i)"
        and F = "\<lambda>v. v - dt * energy_deposition p k j i / CellVolume (pcoord b) k j i"])
     (use assms in \<open>auto simp: interior_def\<close>)

lemma deposit_band_other:
  assumes "\<not> (n = IEN \<and> interior b k j i)"
  shows "deposit_band b dt p dv0 (n, k, j, i) = dv0 (n, k, j, i)"
proof (cases "n = IEN")
  case True
  with assms have "\<not> interior b k j i" by simp
  then show ?thesis
    unfolding deposit_band_def
    by (intro fold3_other [where a = k and b = j and e = i and get = "\<lambda>t. t (n, k, j, i)"])
       (auto simp: interior_def)
next
  case False
  then show ?thesis
    unfolding deposit_band_def
    by (intro fold3_preserves [where P = "\<lambda>t. t (n, k, j, i) = dv0 (n, k, j, i)"]) auto
qed

lemma bands_fold:
  "fold (deposit_band b dt) bands dv0 (n, k, j, i)
   = (if n = IEN \<and> interior b k j i
      then dv0 (IEN, k, j, i)
             - (\<Sum>p\<leftarrow>bands. dt * energy_deposition p k j i / CellVolume (pcoord b) k j i)
      else dv0 (n, k, j, i))"
proof (induction bands arbitrary: dv0)
  case Nil
  then show ?case by simp
next
  case (Cons p bands)
  show ?case
  proof (cases "n = IEN \<and> interior b k j i")
    case True
    then show ?thesis
      using deposit_band_at [of b k j i dt p dv0] Cons.IH [of "deposit_band b dt p dv0"] by simp
  next
    case False
    then show ?thesis
      using deposit_band_other [of n b k j i dt p dv0] Cons.IH [of "deposit_band b dt p dv0"] by auto
  qed
qed

text \<open>
  C9: \<open>AddRadiationSourceTerm\<close> changes \<open>du\<close> only in the energy component \<open>IEN\<close> and
  only in the interior cells, where it subtracts \<open>dt * dflx(i) / vol(i)\<close> once for each
  radiation band; every other component of \<open>du\<close> and every cell outside the interior
  (the ghost cells) keeps its value.
\<close>

theorem C9_radiation_source_term_frame:
  "AddRadiationSourceTerm rad dt du0 (n, k, j, i) =
     (if n = IEN \<and> interior (pmy_block rad) k j i
      then du0 (IEN, k, j, i)
             - (\<Sum>p\<leftarrow>pband rad. dt * energy_deposition p k j i / CellVolume (pcoord (pmy_block rad)) k j i)
      else du0 (n, k, j, i))"
proof (cases "pband rad = []")
  case True
  then show ?thesis
    by (simp add: AddRadiationSourceTerm_def Let_def)
next
  case False
  then have "AddRadiationSourceTerm rad dt du0 = fold (deposit_band (pmy_block rad) dt) (pband rad) du0"
    by (simp add: AddRadiationSourceTerm_def Let_def)
  then show ?thesis
    by (simp only: bands_fold)
qed

theorem C9_radiation_source_term_frame_witness:
  "AddRadiationSourceTerm ex_radiation (1 / 2) (\<lambda>c. 10) (IEN, 0, 0, 0) = 15 / 2
   \<and> AddRadiationSourceTerm ex_radiation (1 / 2) (\<lambda>c. 10) (IDN, 0, 0, 0) = 10
   \<and> AddRadiationSourceTerm ex_radiation (1 / 2) (\<lambda>c. 10) (IEN, 0, 0, 1) = 10"
  using C9_radiation_source_term_frame [of ex_radiation "1 / 2" "\<lambda>c. 10" IEN 0 0 0]
        C9_radiation_source_term_frame [of ex_radiation "1 / 2" "\<lambda>c. 10" IDN 0 0 0]
        C9_radiation_source_term_frame [of ex_radiation "1 / 2" "\<lambda>c. 10" IEN 0 0 1]
  by (simp add: ex_radiation_def ex_block_def interior_def IEN_def IDN_def)


section \<open>The end-of-step work of the problem generator: properties\<close>

lemma getRad_valid:
  "valid_coordinates mc \<Longrightarrow> getRad mc pc i j k = Inr (radius mc pc i j k)"
  by (auto simp: valid_coordinates_def getRad_def radius_def Let_def)

lemma SetInitialConditions_eq:
  "SetInitialConditions g rad = (ic_dens g rad, ic_press g rad, 0, 0, 0)"
  by (simp add: SetInitialConditions_def ic_dens_def ic_press_def Let_def)

lemma write_prim_fields:
  "phydro_u (write_prim ic k j i st) = phydro_u st"
  "pscalars_s (write_prim ic k j i st) = pscalars_s st"
  "pscalars_r (write_prim ic k j i st) = pscalars_r st"
  "initial_abundances (write_prim ic k j i st) = initial_abundances st"
  by (simp_all add: write_prim_def Let_def split: prod.splits)

lemma write_prim_w:
  "phydro_w (write_prim (dens, press, v1, v2, v3) k j i st) (n, k', j', i') =
     (if (k', j', i') = (k, j, i) \<and> n = IV3 then Num v3
      else if (k', j', i') = (k, j, i) \<and> n = IV2 then Num v2
      else if (k', j', i') = (k, j, i) \<and> n = IV1 then Num v1
      else if (k', j', i') = (k, j, i) \<and> n = IDN then Num dens
      else if (k', j', i') = (k, j, i) \<and> n = IPR then Num press
      else phydro_w st (n, k', j', i'))"
  by (simp add: write_prim_def Let_def)

lemma reset_scalar_fold_fields:
  "phydro_w (fold (reset_scalar dens k j i) ns st) = phydro_w st"
  "phydro_u (fold (reset_scalar dens k j i) ns st) = phydro_u st"
  "initial_abundances (fold (reset_scalar dens k j i) ns st) = initial_abundances st"
  by (induction ns arbitrary: st) (simp_all add: reset_scalar_def Let_def)

lemma reset_scalar_fold_r:
  "pscalars_r (fold (reset_scalar dens k j i) ns st) (n, k', j', i') =
     (if (k', j', i') = (k, j, i) \<and> n \<in> set ns then initial_abundances st (n, k, j, i)
      else pscalars_r st (n, k', j', i'))"
proof (induction ns arbitrary: st)
  case Nil
  then show ?case by simp
next
  case (Cons a ns)
  have ia: "initial_abundances (reset_scalar dens k j i a st) = initial_abundances st"
    by (simp add: reset_scalar_def Let_def)
  have r: "pscalars_r (reset_scalar dens k j i a st) (n, k', j', i') =
     (if (k', j', i') = (k, j, i) \<and> n = a then initial_abundances st (n, k, j, i)
      else pscalars_r st (n, k', j', i'))" for n k' j' i'
    by (simp add: reset_scalar_def Let_def)
  show ?case
    using Cons.IH [of "reset_scalar dens k j i a st"] by (auto simp: ia r)
qed

lemma reset_scalar_fold_s:
  "pscalars_s (fold (reset_scalar dens k j i) ns st) (n, k', j', i') =
     (if (k', j', i') = (k, j, i) \<and> n \<in> set ns then initial_abundances st (n, k, j, i) * dens
      else pscalars_s st (n, k', j', i'))"
proof (induction ns arbitrary: st)
  case Nil
  then show ?case by simp
next
  case (Cons a ns)
  have ia: "initial_abundances (reset_scalar dens k j i a st) = initial_abundances st"
    by (simp add: reset_scalar_def Let_def)
  have r: "pscalars_s (reset_scalar dens k j i a st) (n, k', j', i') =
     (if (k', j', i') = (k, j, i) \<and> n = a then initial_abundances st (n, k, j, i) * dens
      else pscalars_s st (n, k', j', i'))" for n k' j' i'
    by (simp add: reset_scalar_def Let_def)
  show ?case
    using Cons.IH [of "reset_scalar dens k j i a st"] by (auto simp: ia r)
qed

lemma reset_cell_ia:
  "initial_abundances (reset_cell mc g rad k j i st) = initial_abundances st"
  by (simp add: reset_cell_def Let_def SetInitialConditions_eq reset_scalar_fold_fields write_prim_fields)

lemma reset_cell_w:
  "phydro_w (reset_cell mc g rad k j i st) (n, k', j', i') =
     (if (k', j', i') = (k, j, i) \<and> n = IV3 then Num 0
      else if (k', j', i') = (k, j, i) \<and> n = IV2 then Num 0
      else if (k', j', i') = (k, j, i) \<and> n = IV1 then Num 0
      else if (k', j', i') = (k, j, i) \<and> n = IDN then Num (ic_dens g rad)
      else if (k', j', i') = (k, j, i) \<and> n = IPR then Num (ic_press g rad)
      else phydro_w st (n, k', j', i'))"
  by (simp add: reset_cell_def Let_def SetInitialConditions_eq reset_scalar_fold_fields write_prim_w)

lemma reset_cell_u:
  "phydro_u (reset_cell mc g rad k j i st) (n, k', j', i') =
     (if (k', j', i') = (k, j, i) \<and> n = IM3 then 0
      else if (k', j', i') = (k, j, i) \<and> n = IM2 then 0
      else if (k', j', i') = (k, j, i) \<and> n = IM1 then 0
      else if (k', j', i') = (k, j, i) \<and> n = IDN then ic_dens g rad
      else if (k', j', i') = (k, j, i) \<and> n = IEN then ic_press g rad / (gas_gamma g - 1)
      else phydro_u st (n, k', j', i'))"
  by (simp add: reset_cell_def Let_def SetInitialConditions_eq reset_scalar_fold_fields write_prim_fields)

lemma reset_cell_r:
  "pscalars_r (reset_cell mc g rad k j i st) (n, k', j', i') =
     (if (k', j', i') = (k, j, i) \<and> n < NSCALARS mc then initial_abundances st (n, k, j, i)
      else pscalars_r st (n, k', j', i'))"
  by (simp add: reset_cell_def Let_def SetInitialConditions_eq reset_scalar_fold_r write_prim_fields)

lemma reset_cell_s:
  "pscalars_s (reset_cell mc g rad k j i st) (n, k', j', i') =
     (if (k', j', i') = (k, j, i) \<and> n < NSCALARS mc then initial_abundances st (n, k, j, i) * ic_dens g rad
      else pscalars_s st (n, k', j', i'))"
  by (simp add: reset_cell_def Let_def SetInitialConditions_eq reset_scalar_fold_s write_prim_fields)

lemmas reset_cell_fields = reset_cell_ia reset_cell_w reset_cell_u reset_cell_r reset_cell_s


lemma work_cell_eq:
  assumes "valid_coordinates mc"
  shows "work_cell mc g b k j i st =
     (if nan_quantity (phydro_w st) k j i = None then Inr (replenish_cell mc g b k j i st)
      else Inl (NanDetected (the (nan_quantity (phydro_w st) k j i)) k j i (mesh_time b) (mesh_ncycle b)))"
  by (auto simp: work_cell_def getRad_valid [OF assms] replenish_cell_def split: option.splits)

lemma replenish_cell_ia:
  "initial_abundances (replenish_cell mc g b k j i st) = initial_abundances st"
  by (simp add: replenish_cell_def reset_cell_ia)

lemma replenish_cell_other:
  assumes "(k', j', i') \<noteq> (k, j, i)"
  shows "phydro_w (replenish_cell mc g b k j i st) (n, k', j', i') = phydro_w st (n, k', j', i')"
    and "phydro_u (replenish_cell mc g b k j i st) (n, k', j', i') = phydro_u st (n, k', j', i')"
    and "pscalars_s (replenish_cell mc g b k j i st) (n, k', j', i') = pscalars_s st (n, k', j', i')"
    and "pscalars_r (replenish_cell mc g b k j i st) (n, k', j', i') = pscalars_r st (n, k', j', i')"
  using assms by (auto simp: replenish_cell_def reset_cell_fields)

lemma replenish_cell_state_other:
  assumes "(k', j', i') \<noteq> (k, j, i)"
  shows "cell_state (replenish_cell mc g b k j i st) k' j' i' = cell_state st k' j' i'"
  by (simp add: cell_state_def replenish_cell_other [OF assms])

lemma replenish_cell_nan_other:
  assumes "(k', j', i') \<noteq> (k, j, i)"
  shows "nan_quantity (phydro_w (replenish_cell mc g b k j i st)) k' j' i' = nan_quantity (phydro_w st) k' j' i'"
  by (simp add: nan_quantity_def replenish_cell_other [OF assms])

lemma replenish_cell_local:
  assumes "initial_abundances s = initial_abundances s'"
    and "cell_state s k j i = cell_state s' k j i"
  shows "cell_state (replenish_cell mc g b k j i s) k j i = cell_state (replenish_cell mc g b k j i s') k j i"
proof -
  from assms(2) have "phydro_w s (n, k, j, i) = phydro_w s' (n, k, j, i)"
    "phydro_u s (n, k, j, i) = phydro_u s' (n, k, j, i)"
    "pscalars_s s (n, k, j, i) = pscalars_s s' (n, k, j, i)"
    "pscalars_r s (n, k, j, i) = pscalars_r s' (n, k, j, i)" for n
    by (simp_all add: cell_state_def fun_eq_iff)
  with assms(1) show ?thesis
    by (simp add: cell_state_def replenish_cell_def reset_cell_fields fun_eq_iff)
qed

lemma bounds_cases:
  obtains il iu jl ju kl ku where "getMBBounds mc b = (il, iu, jl, ju, kl, ku)"
  by (cases "getMBBounds mc b") auto

lemma UserWorkInLoop_completes:
  assumes v: "valid_coordinates mc"
    and ok: "\<And>k j i. in_block mc b k j i \<Longrightarrow> nan_quantity (phydro_w st) k j i = None"
    and bnd: "getMBBounds mc b = (il, iu, jl, ju, kl, ku)"
  shows "UserWorkInLoop mc g b st =
     Inr (fold (\<lambda>k. fold (\<lambda>j. fold (replenish_cell mc g b k j) [il..iu]) [jl..ju]) [kl..ku] st)"
  unfolding UserWorkInLoop_def bnd prod.case
proof (rule for_each3_checked [where ok = "\<lambda>k j i s. nan_quantity (phydro_w s) k j i = None"
      and err = "\<lambda>k j i s. NanDetected (the (nan_quantity (phydro_w s) k j i)) k j i (mesh_time b) (mesh_ncycle b)"])
  fix k j i s
  show "work_cell mc g b k j i s =
     (if nan_quantity (phydro_w s) k j i = None then Inr (replenish_cell mc g b k j i s)
      else Inl (NanDetected (the (nan_quantity (phydro_w s) k j i)) k j i (mesh_time b) (mesh_ncycle b)))"
    by (rule work_cell_eq [OF v])
next
  fix k j i k' j' i' :: int and s
  assume "(k, j, i) \<noteq> (k', j', i')"
  then show "(nan_quantity (phydro_w (replenish_cell mc g b k' j' i' s)) k j i = None)
           = (nan_quantity (phydro_w s) k j i = None)"
    using replenish_cell_nan_other [of k j i k' j' i'] by simp
next
  fix k j i
  assume "k \<in> set [kl..ku]" "j \<in> set [jl..ju]" "i \<in> set [il..iu]"
  then show "nan_quantity (phydro_w st) k j i = None"
    by (intro ok) (simp add: in_block_def bnd)
qed simp_all

lemma UserWorkInLoop_aborts:
  assumes v: "valid_coordinates mc"
    and bad: "in_block mc b k0 j0 i0" "nan_quantity (phydro_w st) k0 j0 i0 \<noteq> None"
  shows "\<exists>k j i. in_block mc b k j i \<and> nan_quantity (phydro_w st) k j i \<noteq> None \<and>
           UserWorkInLoop mc g b st =
             Inl (NanDetected (the (nan_quantity (phydro_w st) k j i)) k j i (mesh_time b) (mesh_ncycle b))"
proof -
  obtain il iu jl ju kl ku where bnd: "getMBBounds mc b = (il, iu, jl, ju, kl, ku)"
    by (rule bounds_cases)
  have "\<exists>k j i. k \<in> set [kl..ku] \<and> j \<in> set [jl..ju] \<and> i \<in> set [il..iu] \<and>
          \<not> nan_quantity (phydro_w st) k j i = None \<and>
          for_each [kl..ku] (\<lambda>k. for_each [jl..ju] (\<lambda>j. for_each [il..iu] (work_cell mc g b k j))) st
            = Inl (NanDetected (the (nan_quantity (phydro_w st) k j i)) k j i (mesh_time b) (mesh_ncycle b))"
  proof (rule for_each3_fails [where ok = "\<lambda>k j i s. nan_quantity (phydro_w s) k j i = None"
        and upd = "replenish_cell mc g b" and ax = k0 and bx = j0 and ex = i0])
    fix k j i s
    show "work_cell mc g b k j i s =
       (if nan_quantity (phydro_w s) k j i = None then Inr (replenish_cell mc g b k j i s)
        else Inl (NanDetected (the (nan_quantity (phydro_w s) k j i)) k j i (mesh_time b) (mesh_ncycle b)))"
      by (rule work_cell_eq [OF v])
  next
    fix k j i k' j' i' :: int and s
    assume ne: "(k, j, i) \<noteq> (k', j', i')"
    then show "(nan_quantity (phydro_w (replenish_cell mc g b k' j' i' s)) k j i = None)
             = (nan_quantity (phydro_w s) k j i = None)"
      using replenish_cell_nan_other [of k j i k' j' i'] by simp
    from ne show "NanDetected (the (nan_quantity (phydro_w (replenish_cell mc g b k' j' i' s)) k j i)) k j i
              (mesh_time b) (mesh_ncycle b)
            = NanDetected (the (nan_quantity (phydro_w s) k j i)) k j i (mesh_time b) (mesh_ncycle b)"
      using replenish_cell_nan_other [of k j i k' j' i'] by simp
  next
    from bad(1) show "k0 \<in> set [kl..ku]" "j0 \<in> set [jl..ju]" "i0 \<in> set [il..iu]"
      by (simp_all add: in_block_def bnd)
    from bad(2) show "\<not> nan_quantity (phydro_w st) k0 j0 i0 = None" .
  qed simp_all
  then show ?thesis
    by (auto simp: UserWorkInLoop_def bnd in_block_def)
qed

lemma nan_quantity_None_iff:
  "nan_quantity pw k j i = None \<longleftrightarrow>
     \<not> isnan (pw (IDN, k, j, i)) \<and> \<not> isnan (pw (IPR, k, j, i)) \<and> \<not> isnan (pw (IV1, k, j, i)) \<and>
     \<not> isnan (pw (IV2, k, j, i)) \<and> \<not> isnan (pw (IV3, k, j, i))"
  by (simp add: nan_quantity_def)

lemma nan_quantity_names:
  assumes "nan_quantity pw k j i \<noteq> None"
  shows "\<exists>n. n \<in> {IDN, IPR, IV1, IV2, IV3} \<and> isnan (pw (n, k, j, i)) \<and>
             the (nan_quantity pw k j i) = prim_name n"
proof -
  consider "isnan (pw (IDN, k, j, i))"
    | "\<not> isnan (pw (IDN, k, j, i))" "isnan (pw (IPR, k, j, i))"
    | "\<not> isnan (pw (IDN, k, j, i))" "\<not> isnan (pw (IPR, k, j, i))" "isnan (pw (IV1, k, j, i))"
    | "\<not> isnan (pw (IDN, k, j, i))" "\<not> isnan (pw (IPR, k, j, i))" "\<not> isnan (pw (IV1, k, j, i))"
      "isnan (pw (IV2, k, j, i))"
    | "\<not> isnan (pw (IDN, k, j, i))" "\<not> isnan (pw (IPR, k, j, i))" "\<not> isnan (pw (IV1, k, j, i))"
      "\<not> isnan (pw (IV2, k, j, i))" "isnan (pw (IV3, k, j, i))"
    using assms by (auto simp: nan_quantity_None_iff)
  then show ?thesis
  proof cases
    case 1
    then show ?thesis by (intro exI [of _ IDN]) (simp add: nan_quantity_def prim_name_def)
  next
    case 2
    then show ?thesis
      by (intro exI [of _ IPR]) (simp add: nan_quantity_def prim_name_def IDN_def IPR_def)
  next
    case 3
    then show ?thesis
      by (intro exI [of _ IV1]) (simp add: nan_quantity_def prim_name_def IDN_def IPR_def IV1_def)
  next
    case 4
    then show ?thesis
      by (intro exI [of _ IV2]) (simp add: nan_quantity_def prim_name_def IDN_def IPR_def IV1_def IV2_def)
  next
    case 5
    then show ?thesis
      by (intro exI [of _ IV3])
         (simp add: nan_quantity_def prim_name_def IDN_def IPR_def IV1_def IV2_def IV3_def)
  qed
qed


lemma replenish_loop_ia:
  "initial_abundances (fold (\<lambda>k. fold (\<lambda>j. fold (replenish_cell mc g b k j) is) js) ks st)
     = initial_abundances st"
  by (rule fold3_preserves [where P = "\<lambda>t. initial_abundances t = initial_abundances st"])
     (simp_all add: replenish_cell_ia)

lemma replenish_loop_cell:
  assumes "k \<in> set ks" "j \<in> set js" "i \<in> set is" "distinct ks" "distinct js" "distinct is"
  shows "cell_state (fold (\<lambda>k. fold (\<lambda>j. fold (replenish_cell mc g b k j) is) js) ks st) k j i
         = cell_state (replenish_cell mc g b k j i st) k j i"
proof (rule fold3_at2 [where a = k and b = j and e = i and get = "\<lambda>t. cell_state t k j i"
      and Inv = "\<lambda>t. initial_abundances t = initial_abundances st"])
  fix k' j' i' s
  assume "(k', j', i') \<noteq> (k, j, i)"
  then have "(k, j, i) \<noteq> (k', j', i')" by auto
  then show "cell_state (replenish_cell mc g b k' j' i' s) k j i = cell_state s k j i"
    by (rule replenish_cell_state_other)
next
  fix s s'
  assume "initial_abundances s = initial_abundances st" "initial_abundances s' = initial_abundances st"
    "cell_state s k j i = cell_state s' k j i"
  then show "cell_state (replenish_cell mc g b k j i s) k j i = cell_state (replenish_cell mc g b k j i s') k j i"
    by (intro replenish_cell_local) simp_all
qed (use assms in \<open>simp_all add: replenish_cell_ia\<close>)

lemma replenish_loop_outside:
  assumes "\<not> (k \<in> set ks \<and> j \<in> set js \<and> i \<in> set is)"
  shows "cell_state (fold (\<lambda>k. fold (\<lambda>j. fold (replenish_cell mc g b k j) is) js) ks st) k j i
         = cell_state st k j i"
proof (rule fold3_other [where a = k and b = j and e = i and get = "\<lambda>t. cell_state t k j i"])
  fix k' j' i' s
  assume "(k', j', i') \<noteq> (k, j, i)"
  then have "(k, j, i) \<noteq> (k', j', i')" by auto
  then show "cell_state (replenish_cell mc g b k' j' i' s) k j i = cell_state s k j i"
    by (rule replenish_cell_state_other)
qed (use assms in simp)

lemma cell_state_eqD:
  assumes "cell_state s k j i = cell_state t k j i"
  shows "phydro_w s (n, k, j, i) = phydro_w t (n, k, j, i)"
    and "phydro_u s (n, k, j, i) = phydro_u t (n, k, j, i)"
    and "pscalars_s s (n, k, j, i) = pscalars_s t (n, k, j, i)"
    and "pscalars_r s (n, k, j, i) = pscalars_r t (n, k, j, i)"
  using assms by (simp_all add: cell_state_def fun_eq_iff)

text \<open>
  C10: when the coordinate system is one that \<open>getRad\<close> accepts and no primitive
  variable of the block is not-a-number (so that the end-of-step check lets the step
  complete), \<open>UserWorkInLoop\<close> returns a state in which every cell of the block with
  radius at most \<open>r_replenish\<close> holds the initial conditions of its radius in the
  primitive variables (pressure, density, zero velocities), in the conserved variables
  (energy \<open>press / (gamma - 1)\<close>, density, momenta velocity times density, that is 0)
  and in the species scalars (\<open>r = initial_abundances\<close>,
  \<open>s = initial_abundances * dens\<close>), and in which every other cell has the state it
  had before.
\<close>

theorem C10_replenish_frame:
  assumes "valid_coordinates mc"
    and "\<And>k j i. in_block mc b k j i \<Longrightarrow> nan_quantity (phydro_w st) k j i = None"
  shows "\<exists>st'. UserWorkInLoop mc g b st = Inr st' \<and>
     (\<forall>k j i.
        (in_block mc b k j i \<and> radius mc (pcoord b) i j k \<le> r_replenish g \<longrightarrow>
           phydro_w st' (IPR, k, j, i) = Num (ic_press g (radius mc (pcoord b) i j k)) \<and>
           phydro_w st' (IDN, k, j, i) = Num (ic_dens g (radius mc (pcoord b) i j k)) \<and>
           phydro_w st' (IV1, k, j, i) = Num 0 \<and>
           phydro_w st' (IV2, k, j, i) = Num 0 \<and>
           phydro_w st' (IV3, k, j, i) = Num 0 \<and>
           phydro_u st' (IEN, k, j, i) = ic_press g (radius mc (pcoord b) i j k) / (gas_gamma g - 1) \<and>
           phydro_u st' (IDN, k, j, i) = ic_dens g (radius mc (pcoord b) i j k) \<and>
           phydro_u st' (IM1, k, j, i) = 0 * ic_dens g (radius mc (pcoord b) i j k) \<and>
           phydro_u st' (IM2, k, j, i) = 0 * ic_dens g (radius mc (pcoord b) i j k) \<and>
           phydro_u st' (IM3, k, j, i) = 0 * ic_dens g (radius mc (pcoord b) i j k) \<and>
           (\<forall>n<NSCALARS mc.
              pscalars_r st' (n, k, j, i) = initial_abundances st (n, k, j, i) \<and>
              pscalars_s st' (n, k, j, i)
                = initial_abundances st (n, k, j, i) * ic_dens g (radius mc (pcoord b) i j k)))
      \<and> (\<not> (in_block mc b k j i \<and> radius mc (pcoord b) i j k \<le> r_replenish g) \<longrightarrow>
           cell_state st' k j i = cell_state st k j i))"
proof -
  obtain il iu jl ju kl ku where bnd: "getMBBounds mc b = (il, iu, jl, ju, kl, ku)"
    by (rule bounds_cases)
  define st' where "st' = fold (\<lambda>k. fold (\<lambda>j. fold (replenish_cell mc g b k j) [il..iu]) [jl..ju]) [kl..ku] st"
  have run: "UserWorkInLoop mc g b st = Inr st'"
    unfolding st'_def using assms bnd by (rule UserWorkInLoop_completes)
  have inb: "in_block mc b k j i \<longleftrightarrow> k \<in> set [kl..ku] \<and> j \<in> set [jl..ju] \<and> i \<in> set [il..iu]" for k j i
    by (simp add: in_block_def bnd)
  have reset: "cell_state st' k j i = cell_state (reset_cell mc g (radius mc (pcoord b) i j k) k j i st) k j i"
    if "in_block mc b k j i" "radius mc (pcoord b) i j k \<le> r_replenish g" for k j i
    using that replenish_loop_cell [of k "[kl..ku]" j "[jl..ju]" i "[il..iu]" mc g b st]
    by (simp add: st'_def inb replenish_cell_def)
  have keep: "cell_state st' k j i = cell_state st k j i"
    if "\<not> (in_block mc b k j i \<and> radius mc (pcoord b) i j k \<le> r_replenish g)" for k j i
  proof (cases "in_block mc b k j i")
    case True
    with that replenish_loop_cell [of k "[kl..ku]" j "[jl..ju]" i "[il..iu]" mc g b st]
    show ?thesis by (simp add: st'_def inb replenish_cell_def)
  next
    case False
    then show ?thesis
      unfolding st'_def by (intro replenish_loop_outside) (simp add: inb)
  qed
  have vals: "phydro_w st' (IPR, k, j, i) = Num (ic_press g (radius mc (pcoord b) i j k)) \<and>
           phydro_w st' (IDN, k, j, i) = Num (ic_dens g (radius mc (pcoord b) i j k)) \<and>
           phydro_w st' (IV1, k, j, i) = Num 0 \<and>
           phydro_w st' (IV2, k, j, i) = Num 0 \<and>
           phydro_w st' (IV3, k, j, i) = Num 0 \<and>
           phydro_u st' (IEN, k, j, i) = ic_press g (radius mc (pcoord b) i j k) / (gas_gamma g - 1) \<and>
           phydro_u st' (IDN, k, j, i) = ic_dens g (radius mc (pcoord b) i j k) \<and>
           phydro_u st' (IM1, k, j, i) = 0 * ic_dens g (radius mc (pcoord b) i j k) \<and>
           phydro_u st' (IM2, k, j, i) = 0 * ic_dens g (radius mc (pcoord b) i j k) \<and>
           phydro_u st' (IM3, k, j, i) = 0 * ic_dens g (radius mc (pcoord b) i j k) \<and>
           (\<forall>n<NSCALARS mc.
              pscalars_r st' (n, k, j, i) = initial_abundances st (n, k, j, i) \<and>
              pscalars_s st' (n, k, j, i)
                = initial_abundances st (n, k, j, i) * ic_dens g (radius mc (pcoord b) i j k))"
    if "in_block mc b k j i" "radius mc (pcoord b) i j k \<le> r_replenish g" for k j i
    unfolding cell_state_eqD [OF reset [OF that]]
    by (simp add: reset_cell_fields IDN_def IPR_def IV1_def IV2_def IV3_def IEN_def IM1_def IM2_def IM3_def)
  from run vals keep show ?thesis by blast
qed

text \<open>
  C8: with a coordinate system that \<open>getRad\<close> accepts: if the density, the pressure or
  a velocity component of some cell of the block is not-a-number, \<open>UserWorkInLoop\<close>
  aborts with the error \<open>NanDetected\<close> that carries the name of a primitive variable
  that is not-a-number, the coordinates \<open>k, j, i\<close> of its cell, the time and the cycle
  count; if none is not-a-number, the call returns normally.
\<close>

theorem C8_nan_check:
  assumes "valid_coordinates mc"
  shows "((\<exists>k j i n. in_block mc b k j i \<and> n \<in> {IDN, IPR, IV1, IV2, IV3} \<and> isnan (phydro_w st (n, k, j, i))) \<longrightarrow>
          (\<exists>k j i n. in_block mc b k j i \<and> n \<in> {IDN, IPR, IV1, IV2, IV3} \<and> isnan (phydro_w st (n, k, j, i)) \<and>
             UserWorkInLoop mc g b st
               = Inl (NanDetected (prim_name n) k j i (mesh_time b) (mesh_ncycle b))))
       \<and> ((\<forall>k j i n. in_block mc b k j i \<and> n \<in> {IDN, IPR, IV1, IV2, IV3} \<longrightarrow> \<not> isnan (phydro_w st (n, k, j, i))) \<longrightarrow>
          (\<exists>st'. UserWorkInLoop mc g b st = Inr st'))"
proof (intro conjI impI)
  assume "\<exists>k j i n. in_block mc b k j i \<and> n \<in> {IDN, IPR, IV1, IV2, IV3} \<and> isnan (phydro_w st (n, k, j, i))"
  then obtain k0 j0 i0 where "in_block mc b k0 j0 i0" "nan_quantity (phydro_w st) k0 j0 i0 \<noteq> None"
    by (auto simp: nan_quantity_None_iff)
  from UserWorkInLoop_aborts [OF assms this, of g]
  obtain k j i where c: "in_block mc b k j i" "nan_quantity (phydro_w st) k j i \<noteq> None"
    "UserWorkInLoop mc g b st =
       Inl (NanDetected (the (nan_quantity (phydro_w st) k j i)) k j i (mesh_time b) (mesh_ncycle b))"
    by blast
  from nan_quantity_names [OF c(2)] obtain n where
    "n \<in> {IDN, IPR, IV1, IV2, IV3}" "isnan (phydro_w st (n, k, j, i))"
    "the (nan_quantity (phydro_w st) k j i) = prim_name n"
    by blast
  with c show "\<exists>k j i n. in_block mc b k j i \<and> n \<in> {IDN, IPR, IV1, IV2, IV3} \<and> isnan (phydro_w st (n, k, j, i)) \<and>
             UserWorkInLoop mc g b st
               = Inl (NanDetected (prim_name n) k j i (mesh_time b) (mesh_ncycle b))"
    by auto
next
  assume a: "\<forall>k j i n. in_block mc b k j i \<and> n \<in> {IDN, IPR, IV1, IV2, IV3} \<longrightarrow> \<not> isnan (phydro_w st (n, k, j, i))"
  obtain il iu jl ju kl ku where bnd: "getMBBounds mc b = (il, iu, jl, ju, kl, ku)"
    by (rule bounds_cases)
  have "nan_quantity (phydro_w st) k j i = None" if "in_block mc b k j i" for k j i
    using a that by (simp add: nan_quantity_None_iff)
  from UserWorkInLoop_completes [OF assms this bnd, of g]
  show "\<exists>st'. UserWorkInLoop mc g b st = Inr st'" by blast
qed


lemma ex_macros_valid: "valid_coordinates ex_macros"
  by (simp add: valid_coordinates_def ex_macros_def)

lemma ex_in_block: "in_block ex_macros ex_block k j i \<longleftrightarrow> k = 0 \<and> j = 0 \<and> - 2 \<le> i \<and> i \<le> 2"
  by (auto simp: in_block_def getMBBounds_def ex_macros_def ex_block_def)

lemma ex_radius: "radius ex_macros (pcoord ex_block) i j k = of_int i + 3"
  by (simp add: radius_def ex_macros_def ex_block_def)

theorem C8_nan_check_witness:
  "UserWorkInLoop ex_macros ex_globals ex_block ex_nan_state = Inl (NanDetected ''press'' 0 0 0 7 3)
   \<and> \<not> isl (UserWorkInLoop ex_macros ex_globals ex_block ex_block_state)"
proof -
  have nan: "isnan (phydro_w ex_nan_state (n, k, j, i)) \<longleftrightarrow> n = IPR \<and> k = 0 \<and> j = 0 \<and> i = 0" for n k j i
    by (simp add: ex_nan_state_def)
  have "\<exists>k j i n. in_block ex_macros ex_block k j i \<and> n \<in> {IDN, IPR, IV1, IV2, IV3} \<and>
          isnan (phydro_w ex_nan_state (n, k, j, i))"
    by (intro exI [of _ 0] exI [of _ IPR]) (simp add: ex_in_block nan)
  with C8_nan_check [OF ex_macros_valid, where b = ex_block and st = ex_nan_state and g = ex_globals]
  obtain k j i n where "isnan (phydro_w ex_nan_state (n, k, j, i))"
    "UserWorkInLoop ex_macros ex_globals ex_block ex_nan_state
       = Inl (NanDetected (prim_name n) k j i (mesh_time ex_block) (mesh_ncycle ex_block))"
    by blast
  then have a: "UserWorkInLoop ex_macros ex_globals ex_block ex_nan_state = Inl (NanDetected ''press'' 0 0 0 7 3)"
    by (simp add: nan prim_name_def IPR_def IDN_def ex_block_def)
  have "\<forall>k j i n. in_block ex_macros ex_block k j i \<and> n \<in> {IDN, IPR, IV1, IV2, IV3} \<longrightarrow>
          \<not> isnan (phydro_w ex_block_state (n, k, j, i))"
    by (simp add: ex_block_state_def)
  with C8_nan_check [OF ex_macros_valid, where b = ex_block and st = ex_block_state and g = ex_globals]
  obtain st' where "UserWorkInLoop ex_macros ex_globals ex_block ex_block_state = Inr st'"
    by blast
  with a show ?thesis by simp
qed

theorem C10_replenish_frame_witness:
  "\<not> isl (UserWorkInLoop ex_macros ex_globals ex_block ex_block_state)
   \<and> phydro_w (projr (UserWorkInLoop ex_macros ex_globals ex_block ex_block_state)) (IDN, 0, 0, - 1) = Num 5
   \<and> phydro_u (projr (UserWorkInLoop ex_macros ex_globals ex_block ex_block_state)) (IEN, 0, 0, - 1) = 21 / 2
   \<and> pscalars_s (projr (UserWorkInLoop ex_macros ex_globals ex_block ex_block_state)) (HYD, 0, 0, - 1) = 5 / 3
   \<and> cell_state (projr (UserWorkInLoop ex_macros ex_globals ex_block ex_block_state)) 0 0 1
       = cell_state ex_block_state 0 0 1"
proof -
  have ok: "nan_quantity (phydro_w ex_block_state) k j i = None" for k j i
    by (simp add: nan_quantity_def ex_block_state_def)
  from C10_replenish_frame [OF ex_macros_valid ok, where b = ex_block and g = ex_globals]
  obtain st' where run: "UserWorkInLoop ex_macros ex_globals ex_block ex_block_state = Inr st'"
    and inside: "\<And>k j i. in_block ex_macros ex_block k j i \<Longrightarrow>
        radius ex_macros (pcoord ex_block) i j k \<le> r_replenish ex_globals \<Longrightarrow>
        phydro_w st' (IDN, k, j, i) = Num (ic_dens ex_globals (radius ex_macros (pcoord ex_block) i j k)) \<and>
        phydro_u st' (IEN, k, j, i) = ic_press ex_globals (radius ex_macros (pcoord ex_block) i j k) / (gas_gamma ex_globals - 1) \<and>
        (\<forall>n<NSCALARS ex_macros. pscalars_s st' (n, k, j, i)
            = initial_abundances ex_block_state (n, k, j, i) * ic_dens ex_globals (radius ex_macros (pcoord ex_block) i j k))"
    and outside: "\<And>k j i. \<not> (in_block ex_macros ex_block k j i \<and>
        radius ex_macros (pcoord ex_block) i j k \<le> r_replenish ex_globals) \<Longrightarrow>
        cell_state st' k j i = cell_state ex_block_state k j i"
    by blast
  have d: "ic_dens ex_globals 2 = 5" "ic_press ex_globals 2 = 7"
    by (simp_all add: ic_dens_def ic_press_def SetInitialConditions_def ex_globals_def)
  have r: "r_replenish ex_globals = 3" "gas_gamma ex_globals = 5 / 3" "NSCALARS ex_macros = 3"
    "initial_abundances ex_block_state c = 1 / 3" for c
    by (simp_all add: ex_globals_def ex_macros_def ex_block_state_def)
  have in1: "in_block ex_macros ex_block 0 0 (- 1)"
    and rad1: "radius ex_macros (pcoord ex_block) (- 1) 0 0 \<le> r_replenish ex_globals"
    by (simp_all add: ex_in_block ex_radius r)
  have out: "\<not> (in_block ex_macros ex_block 0 0 1 \<and>
      radius ex_macros (pcoord ex_block) 1 0 0 \<le> r_replenish ex_globals)"
    by (simp add: ex_radius r)
  from inside [OF in1 rad1] have
    "phydro_w st' (IDN, 0, 0, - 1) = Num 5"
    "phydro_u st' (IEN, 0, 0, - 1) = 21 / 2"
    "pscalars_s st' (HYD, 0, 0, - 1) = 5 / 3"
    by (simp_all add: ex_radius d r HYD_def)
  moreover from outside [OF out] have "cell_state st' 0 0 1 = cell_state ex_block_state 0 0 1" .
  ultimately show ?thesis by (simp add: run)
qed


section \<open>The initial state of the problem generator: properties\<close>

lemma scale_fold:
  "distinct ns \<Longrightarrow>
   fold (scale_by_mass m k j i) ns ia (n, k', j', i') =
     (if (k', j', i') = (k, j, i) \<and> n \<in> set ns then ia (n, k, j, i) * m n else ia (n, k', j', i'))"
proof (induction ns arbitrary: ia)
  case Nil
  then show ?case by simp
next
  case (Cons a ns)
  then have d: "distinct ns" and a: "a \<notin> set ns" by simp_all
  show ?case
    using Cons.IH [OF d, of "scale_by_mass m k j i a ia"] a
    by (auto simp: scale_by_mass_def)
qed

lemma abundance_cell_eq:
  assumes "valid_coordinates mc" and "NSCALARS mc = 3"
  shows "abundance_cell mc g b m k j i ia = Inr (set_abundances mc g b m k j i ia)"
proof -
  have ns: "[0..<3] = [0, 1, 2]" by (simp add: upt_rec)
  have "fold (scale_by_mass m k j i) [0..<3] ia3 c =
          (if snd c = (k, j, i) \<and> fst c < 3 then ia3 (fst c, k, j, i) * m (fst c) else ia3 c)" for ia3 c
    using scale_fold [of "[0..<3]" m k j i ia3 "fst c" "fst (snd c)" "fst (snd (snd c))" "snd (snd (snd c))"]
    by (cases c) auto
  then show ?thesis
    by (auto simp: abundance_cell_def getRad_valid [OF assms(1)] assms(2) Let_def set_abundances_def
        mass_fraction_def fun_eq_iff HYD_def ELEC_def HPLUS_def less_Suc_eq numeral_3_eq_3)
qed

lemma SetInitialAbundances_eq:
  assumes "valid_coordinates mc" and "NSCALARS mc = 3" and "getMBBounds mc b = (il, iu, jl, ju, kl, ku)"
  shows "SetInitialAbundances mc g b m ia =
     Inr (fold (\<lambda>k. fold (\<lambda>j. fold (set_abundances mc g b m k j) [il..iu]) [jl..ju]) [kl..ku] ia)"
  unfolding SetInitialAbundances_def assms(3) prod.case
  by (rule for_each3_total) (rule abundance_cell_eq [OF assms(1,2)])

lemma set_abundances_loop:
  assumes "k \<in> set ks" "j \<in> set js" "i \<in> set is" "distinct ks" "distinct js" "distinct is" "n < 3"
  shows "fold (\<lambda>k. fold (\<lambda>j. fold (set_abundances mc g b m k j) is) js) ks ia (n, k, j, i)
         = mass_fraction g m (radius mc (pcoord b) i j k) n"
  by (rule fold3_at [where a = k and b = j and e = i and Inv = "\<lambda>t. True"
        and get = "\<lambda>t. t (n, k, j, i)"
        and F = "\<lambda>v. mass_fraction g m (radius mc (pcoord b) i j k) n"])
     (use assms in \<open>auto simp: set_abundances_def\<close>)

lemma set_scalar_fold_fields:
  "phydro_w (fold (set_scalar dens k j i) ns st) = phydro_w st"
  "initial_abundances (fold (set_scalar dens k j i) ns st) = initial_abundances st"
  by (induction ns arbitrary: st) (simp_all add: set_scalar_def)

lemma set_scalar_fold_s:
  "pscalars_s (fold (set_scalar dens k j i) ns st) (n, k', j', i') =
     (if (k', j', i') = (k, j, i) \<and> n \<in> set ns then initial_abundances st (n, k, j, i) * dens
      else pscalars_s st (n, k', j', i'))"
proof (induction ns arbitrary: st)
  case Nil
  then show ?case by simp
next
  case (Cons a ns)
  have ia: "initial_abundances (set_scalar dens k j i a st) = initial_abundances st"
    by (simp add: set_scalar_def)
  have r: "pscalars_s (set_scalar dens k j i a st) (n, k', j', i') =
     (if (k', j', i') = (k, j, i) \<and> n = a then initial_abundances st (n, k, j, i) * dens
      else pscalars_s st (n, k', j', i'))" for n k' j' i'
    by (simp add: set_scalar_def)
  show ?case
    using Cons.IH [of "set_scalar dens k j i a st"] by (auto simp: ia r)
qed

lemma init_cell_eq:
  assumes "valid_coordinates mc"
  shows "init_cell mc g b i j k st = Inr (init_state mc g b i j k st)"
  by (simp add: init_cell_def getRad_valid [OF assms] init_state_def Let_def ic_dens_def)

lemma init_state_ia:
  "initial_abundances (init_state mc g b i j k st) = initial_abundances st"
  by (simp add: init_state_def set_scalar_fold_fields write_prim_fields)

lemma init_state_s:
  "pscalars_s (init_state mc g b i j k st) (n, k', j', i') =
     (if (k', j', i') = (k, j, i) \<and> n < NSCALARS mc
      then initial_abundances st (n, k, j, i) * ic_dens g (radius mc (pcoord b) i j k)
      else pscalars_s st (n, k', j', i'))"
  by (simp add: init_state_def set_scalar_fold_s write_prim_fields)

lemma init_state_w:
  "phydro_w (init_state mc g b i j k st) (n, k', j', i') =
     (if (k', j', i') = (k, j, i) \<and> n = IV3 then Num 0
      else if (k', j', i') = (k, j, i) \<and> n = IV2 then Num 0
      else if (k', j', i') = (k, j, i) \<and> n = IV1 then Num 0
      else if (k', j', i') = (k, j, i) \<and> n = IDN then Num (ic_dens g (radius mc (pcoord b) i j k))
      else if (k', j', i') = (k, j, i) \<and> n = IPR then Num (ic_press g (radius mc (pcoord b) i j k))
      else phydro_w st (n, k', j', i'))"
  by (simp add: init_state_def set_scalar_fold_fields SetInitialConditions_eq write_prim_w)

lemma init_loop_s:
  assumes "k \<in> set ks" "j \<in> set js" "i \<in> set is" "distinct ks" "distinct js" "distinct is"
    and "n < NSCALARS mc"
  shows "pscalars_s (fold (\<lambda>i. fold (\<lambda>j. fold (init_state mc g b i j) ks) js) is st) (n, k, j, i)
         = initial_abundances st (n, k, j, i) * ic_dens g (radius mc (pcoord b) i j k)"
  by (rule fold3_at [where a = i and b = j and e = k
        and Inv = "\<lambda>t. initial_abundances t = initial_abundances st"
        and get = "\<lambda>t. pscalars_s t (n, k, j, i)"
        and F = "\<lambda>v. initial_abundances st (n, k, j, i) * ic_dens g (radius mc (pcoord b) i j k)"])
     (use assms in \<open>auto simp: init_state_ia init_state_s\<close>)

lemma init_loop_w:
  assumes "k \<in> set ks" "j \<in> set js" "i \<in> set is" "distinct ks" "distinct js" "distinct is"
  shows "phydro_w (fold (\<lambda>i. fold (\<lambda>j. fold (init_state mc g b i j) ks) js) is st) (IDN, k, j, i)
         = Num (ic_dens g (radius mc (pcoord b) i j k))"
  by (rule fold3_at [where a = i and b = j and e = k and Inv = "\<lambda>t. True"
        and get = "\<lambda>t. phydro_w t (IDN, k, j, i)"
        and F = "\<lambda>v. Num (ic_dens g (radius mc (pcoord b) i j k))"])
     (use assms in \<open>auto simp: init_state_w IDN_def IV1_def IV2_def IV3_def\<close>)

lemma ProblemGenerator_result:
  assumes v: "valid_coordinates mc" and n3: "NSCALARS mc = 3"
  shows "\<exists>st'. ProblemGenerator mc g b m st = Inr st' \<and>
     (\<forall>k j i. in_block mc b k j i \<longrightarrow>
        phydro_w st' (IDN, k, j, i) = Num (ic_dens g (radius mc (pcoord b) i j k)) \<and>
        (\<forall>n<3. pscalars_s st' (n, k, j, i)
           = mass_fraction g m (radius mc (pcoord b) i j k) n * ic_dens g (radius mc (pcoord b) i j k)))"
proof -
  obtain il iu jl ju kl ku where bnd: "getMBBounds mc b = (il, iu, jl, ju, kl, ku)"
    by (rule bounds_cases)
  define ia where "ia = fold (\<lambda>k. fold (\<lambda>j. fold (set_abundances mc g b m k j) [il..iu]) [jl..ju]) [kl..ku] (\<lambda>c. 0)"
  define st' where "st' = fold (\<lambda>i. fold (\<lambda>j. fold (init_state mc g b i j) [kl..ku]) [jl..ju]) [il..iu]
      (st\<lparr>initial_abundances := ia\<rparr>)"
  have sia: "SetInitialAbundances mc g b m (\<lambda>c. 0) = Inr ia"
    unfolding ia_def using v n3 bnd by (rule SetInitialAbundances_eq)
  have "for_each [il..iu] (\<lambda>i. for_each [jl..ju] (\<lambda>j. for_each [kl..ku] (init_cell mc g b i j)))
          (st\<lparr>initial_abundances := ia\<rparr>) = Inr st'"
    unfolding st'_def by (rule for_each3_total) (rule init_cell_eq [OF v])
  then have run: "ProblemGenerator mc g b m st = Inr st'"
    by (simp add: ProblemGenerator_def n3 sia bnd)
  have inb: "in_block mc b k j i \<longleftrightarrow> k \<in> set [kl..ku] \<and> j \<in> set [jl..ju] \<and> i \<in> set [il..iu]" for k j i
    by (simp add: in_block_def bnd)
  have "phydro_w st' (IDN, k, j, i) = Num (ic_dens g (radius mc (pcoord b) i j k))"
    if "in_block mc b k j i" for k j i
    unfolding st'_def using that by (intro init_loop_w) (simp_all add: inb)
  moreover have "pscalars_s st' (n, k, j, i)
           = mass_fraction g m (radius mc (pcoord b) i j k) n * ic_dens g (radius mc (pcoord b) i j k)"
    if "in_block mc b k j i" "n < 3" for k j i n
  proof -
    from that have "pscalars_s st' (n, k, j, i)
        = initial_abundances (st\<lparr>initial_abundances := ia\<rparr>) (n, k, j, i) * ic_dens g (radius mc (pcoord b) i j k)"
      unfolding st'_def by (intro init_loop_s) (simp_all add: inb n3)
    moreover from that have "ia (n, k, j, i) = mass_fraction g m (radius mc (pcoord b) i j k) n"
      unfolding ia_def by (intro set_abundances_loop) (simp_all add: inb)
    ultimately show ?thesis by simp
  qed
  ultimately show ?thesis using run by blast
qed

lemma fraction_sums:
  fixes me mhy mp fl :: real
  assumes "mhy = me + mp" "me \<noteq> 0" "mhy \<noteq> 0"
  shows "fl / me * me + (1 / mhy - fl / me) * mhy + fl / me * mp = 1"
    and "(1 / mhy - fl / me) * me + fl / me * mhy + (1 / mhy - fl / me) * mp = 1"
proof -
  have one: "u * (me + mp) + (v - u) * (me + mp) = v * (me + mp)" for u v :: real
    by (simp add: algebra_simps)
  have a: "u * me + (v - u) * (me + mp) + u * mp = v * (me + mp)" for u v :: real
    by (simp add: algebra_simps)
  have b: "(v - u) * me + u * (me + mp) + (v - u) * mp = v * (me + mp)" for u v :: real
    by (simp add: algebra_simps)
  have c: "1 / mhy * (me + mp) = 1"
    using assms(1,3) by simp
  show "fl / me * me + (1 / mhy - fl / me) * mhy + fl / me * mp = 1"
    unfolding assms(1) a by (rule c [unfolded assms(1)])
  show "(1 / mhy - fl / me) * me + fl / me * mhy + (1 / mhy - fl / me) * mp = 1"
    unfolding assms(1) b by (rule c [unfolded assms(1)])
qed

lemma mass_fraction_sum:
  assumes "m HYD = m ELEC + m HPLUS" "m ELEC \<noteq> 0" "m HYD \<noteq> 0"
  shows "mass_fraction g m rad ELEC + mass_fraction g m rad HYD + mass_fraction g m rad HPLUS = 1"
proof -
  have ne: "ELEC \<noteq> HYD" "HPLUS \<noteq> HYD"
    by (simp_all add: ELEC_def HYD_def HPLUS_def)
  show ?thesis
    using fraction_sums [OF assms, of "sfloor g"] by (simp add: mass_fraction_def ne)
qed

lemma mass_fraction_nonneg:
  assumes "m HYD = m ELEC + m HPLUS" "0 < m ELEC" "0 \<le> m HPLUS"
    and "0 \<le> sfloor g" "sfloor g * m HYD \<le> m ELEC" "n < 3"
  shows "0 \<le> mass_fraction g m rad n"
proof -
  have mhy: "0 < m HYD" using assms by simp
  from assms(6) have "n = ELEC \<or> n = HYD \<or> n = HPLUS"
    by (auto simp: ELEC_def HYD_def HPLUS_def)
  with assms(2,3) mhy have mn: "0 \<le> m n" by auto
  have a: "0 \<le> sfloor g / m ELEC" using assms by simp
  have "sfloor g / m ELEC \<le> 1 / m HYD"
    using assms(2,5) mhy by (simp add: field_simps)
  then have b: "0 \<le> 1 / m HYD - sfloor g / m ELEC" by simp
  have "mass_fraction g m rad n = sfloor g / m ELEC * m n \<or>
        mass_fraction g m rad n = (1 / m HYD - sfloor g / m ELEC) * m n"
    unfolding mass_fraction_def by (auto simp only: split: if_splits)
  moreover have "0 \<le> sfloor g / m ELEC * m n"
    using a mn by (rule mult_nonneg_nonneg)
  moreover have "0 \<le> (1 / m HYD - sfloor g / m ELEC) * m n"
    using b mn by (rule mult_nonneg_nonneg)
  ultimately show ?thesis by auto
qed


lemma ex_ic_dens_outer: "ic_dens ex_globals 5 = 1"
  by (simp add: ic_dens_def SetInitialConditions_def ex_globals_def)

text \<open>
  C6, the claim as it stands, for the configuration \<open>ex_macros\<close>, \<open>ex_globals\<close>,
  \<open>ex_block\<close> with the masses \<open>ex_equal_masses\<close> (the neutral atom and the ion of mass
  1, the electron of mass 1/1836): the problem generator completes, the gas density of
  the cell \<open>(0,0,2)\<close> is 1, and the three species mass densities of that cell do not
  sum to 1.
\<close>

theorem C6_unbalanced_masses_counterexample:
  "\<not> isl (ProblemGenerator ex_macros ex_globals ex_block ex_equal_masses ex_block_state)
   \<and> phydro_w (projr (ProblemGenerator ex_macros ex_globals ex_block ex_equal_masses ex_block_state))
         (IDN, 0, 0, 2) = Num 1
   \<and> pscalars_s (projr (ProblemGenerator ex_macros ex_globals ex_block ex_equal_masses ex_block_state))
         (ELEC, 0, 0, 2)
     + pscalars_s (projr (ProblemGenerator ex_macros ex_globals ex_block ex_equal_masses ex_block_state))
         (HYD, 0, 0, 2)
     + pscalars_s (projr (ProblemGenerator ex_macros ex_globals ex_block ex_equal_masses ex_block_state))
         (HPLUS, 0, 0, 2)
     \<noteq> 1"
proof -
  have n3: "NSCALARS ex_macros = 3" by (simp add: ex_macros_def)
  from ProblemGenerator_result [OF ex_macros_valid n3, of ex_globals ex_block ex_equal_masses ex_block_state]
  obtain st' where run: "ProblemGenerator ex_macros ex_globals ex_block ex_equal_masses ex_block_state = Inr st'"
    and cell: "\<And>k j i. in_block ex_macros ex_block k j i \<Longrightarrow>
        phydro_w st' (IDN, k, j, i) = Num (ic_dens ex_globals (radius ex_macros (pcoord ex_block) i j k)) \<and>
        (\<forall>n<3. pscalars_s st' (n, k, j, i)
           = mass_fraction ex_globals ex_equal_masses (radius ex_macros (pcoord ex_block) i j k) n
             * ic_dens ex_globals (radius ex_macros (pcoord ex_block) i j k))"
    by blast
  have inb: "in_block ex_macros ex_block 0 0 2" by (simp add: ex_in_block)
  have f: "mass_fraction ex_globals ex_equal_masses 5 ELEC = (1 - 1836 / 10000) / 1836"
    "mass_fraction ex_globals ex_equal_masses 5 HYD = 1836 / 10000"
    "mass_fraction ex_globals ex_equal_masses 5 HPLUS = 1 - 1836 / 10000"
    by (simp_all add: mass_fraction_def ex_globals_def ex_equal_masses_def ELEC_def HYD_def HPLUS_def)
  from cell [OF inb] have "phydro_w st' (IDN, 0, 0, 2) = Num 1"
    "pscalars_s st' (ELEC, 0, 0, 2) = (1 - 1836 / 10000) / 1836"
    "pscalars_s st' (HYD, 0, 0, 2) = 1836 / 10000"
    "pscalars_s st' (HPLUS, 0, 0, 2) = 1 - 1836 / 10000"
    using f by (simp_all add: ex_radius ex_ic_dens_outer ELEC_def HYD_def HPLUS_def)
  then show ?thesis by (simp add: run)
qed

text \<open>
  C6, amended: with three species and a coordinate system that \<open>getRad\<close> accepts, the
  loop of the problem generator completes, and for every cell of the block: the
  primitive density is the density of \<open>SetInitialConditions\<close> at the cell's radius;
  if the masses satisfy \<open>m(HYD) = m(ELEC) + m(HPLUS)\<close> with \<open>m(ELEC)\<close> and \<open>m(HYD)\<close>
  not zero, the mass densities of the three species sum to that density; and if moreover
  \<open>0 \<le> sfloor\<close>, \<open>sfloor * m(HYD) \<le> m(ELEC)\<close>, \<open>m(ELEC) > 0\<close>, \<open>m(HPLUS) \<ge> 0\<close> and the
  density is not negative, no species density is negative.
\<close>

theorem C6_initial_species_mass:
  assumes "valid_coordinates mc" and "NSCALARS mc = 3"
    and "m HYD = m ELEC + m HPLUS" and "m ELEC \<noteq> 0" and "m HYD \<noteq> 0"
    and "in_block mc b k j i"
  shows "\<exists>st'. ProblemGenerator mc g b m st = Inr st' \<and>
     phydro_w st' (IDN, k, j, i) = Num (ic_dens g (radius mc (pcoord b) i j k)) \<and>
     pscalars_s st' (ELEC, k, j, i) + pscalars_s st' (HYD, k, j, i) + pscalars_s st' (HPLUS, k, j, i)
       = ic_dens g (radius mc (pcoord b) i j k) \<and>
     (0 \<le> sfloor g \<and> sfloor g * m HYD \<le> m ELEC \<and> 0 < m ELEC \<and> 0 \<le> m HPLUS \<and>
      0 \<le> ic_dens g (radius mc (pcoord b) i j k) \<longrightarrow>
        (\<forall>n<3. 0 \<le> pscalars_s st' (n, k, j, i)))"
proof -
  from ProblemGenerator_result [OF assms(1,2), of g b m st] assms(6)
  obtain st' where run: "ProblemGenerator mc g b m st = Inr st'"
    and w: "phydro_w st' (IDN, k, j, i) = Num (ic_dens g (radius mc (pcoord b) i j k))"
    and s: "\<And>n. n < 3 \<Longrightarrow> pscalars_s st' (n, k, j, i)
           = mass_fraction g m (radius mc (pcoord b) i j k) n * ic_dens g (radius mc (pcoord b) i j k)"
    by blast
  have "pscalars_s st' (ELEC, k, j, i) + pscalars_s st' (HYD, k, j, i) + pscalars_s st' (HPLUS, k, j, i)
      = (mass_fraction g m (radius mc (pcoord b) i j k) ELEC
         + mass_fraction g m (radius mc (pcoord b) i j k) HYD
         + mass_fraction g m (radius mc (pcoord b) i j k) HPLUS) * ic_dens g (radius mc (pcoord b) i j k)"
    by (simp add: s ELEC_def HYD_def HPLUS_def distrib_right)
  also have "\<dots> = ic_dens g (radius mc (pcoord b) i j k)"
    by (simp only: mass_fraction_sum [OF assms(3-5)] mult_1)
  finally have total: "pscalars_s st' (ELEC, k, j, i) + pscalars_s st' (HYD, k, j, i)
      + pscalars_s st' (HPLUS, k, j, i) = ic_dens g (radius mc (pcoord b) i j k)" .
  have "0 \<le> pscalars_s st' (n, k, j, i)"
    if "0 \<le> sfloor g" "sfloor g * m HYD \<le> m ELEC" "0 < m ELEC" "0 \<le> m HPLUS"
      "0 \<le> ic_dens g (radius mc (pcoord b) i j k)" "n < 3" for n
    using mass_fraction_nonneg [OF assms(3) that(3,4,1,2,6), of "radius mc (pcoord b) i j k"] that(5)
    by (simp add: s [OF that(6)])
  with run w total show ?thesis by blast
qed

theorem C6_initial_species_mass_witness:
  "\<not> isl (ProblemGenerator ex_macros ex_globals ex_block ex_masses ex_block_state)
   \<and> phydro_w (projr (ProblemGenerator ex_macros ex_globals ex_block ex_masses ex_block_state))
         (IDN, 0, 0, 2) = Num 1
   \<and> pscalars_s (projr (ProblemGenerator ex_macros ex_globals ex_block ex_masses ex_block_state))
         (ELEC, 0, 0, 2)
     + pscalars_s (projr (ProblemGenerator ex_macros ex_globals ex_block ex_masses ex_block_state))
         (HYD, 0, 0, 2)
     + pscalars_s (projr (ProblemGenerator ex_macros ex_globals ex_block ex_masses ex_block_state))
         (HPLUS, 0, 0, 2)
     = 1
   \<and> 0 \<le> pscalars_s (projr (ProblemGenerator ex_macros ex_globals ex_block ex_masses ex_block_state))
         (HYD, 0, 0, 2)"
proof -
  have n3: "NSCALARS ex_macros = 3" by (simp add: ex_macros_def)
  have bal: "ex_masses HYD = ex_masses ELEC + ex_masses HPLUS" "ex_masses ELEC \<noteq> 0" "ex_masses HYD \<noteq> 0"
    by (simp_all add: ex_masses_def ELEC_def HYD_def HPLUS_def)
  have inb: "in_block ex_macros ex_block 0 0 2" by (simp add: ex_in_block)
  have pos: "0 \<le> sfloor ex_globals \<and> sfloor ex_globals * ex_masses HYD \<le> ex_masses ELEC \<and>
      0 < ex_masses ELEC \<and> 0 \<le> ex_masses HPLUS \<and>
      0 \<le> ic_dens ex_globals (radius ex_macros (pcoord ex_block) 2 0 0)"
    by (simp add: ex_radius ex_ic_dens_outer) (simp add: ex_globals_def ex_masses_def ELEC_def HYD_def HPLUS_def)
  from C6_initial_species_mass [OF ex_macros_valid n3 bal inb, of ex_globals ex_block_state] pos
  obtain st' where "ProblemGenerator ex_macros ex_globals ex_block ex_masses ex_block_state = Inr st'"
    "phydro_w st' (IDN, 0, 0, 2) = Num (ic_dens ex_globals (radius ex_macros (pcoord ex_block) 2 0 0))"
    "pscalars_s st' (ELEC, 0, 0, 2) + pscalars_s st' (HYD, 0, 0, 2) + pscalars_s st' (HPLUS, 0, 0, 2)
       = ic_dens ex_globals (radius ex_macros (pcoord ex_block) 2 0 0)"
    "\<forall>n<3. 0 \<le> pscalars_s st' (n, 0, 0, 2)"
    by blast
  then show ?thesis
    by (simp add: ex_radius ex_ic_dens_outer HYD_def)
qed


end
